theory Spec2Isabelle
  imports Main
begin

section \<open>Time values\<close>

text \<open>
  A \<open>time.Time\<close> instant is modelled as a count of nanoseconds on one time line, a
  \<open>time.Duration\<close> as the signed number of nanoseconds it holds (an int64 in Go; the
  arithmetic used here, \<open>Now().Add(ttl)\<close>, stays far from the range limits).
\<close>

type_synonym time = int
type_synonym duration = int

definition time_Add :: "time \<Rightarrow> duration \<Rightarrow> time" where
  "time_Add t d = t + d"

definition time_Before :: "time \<Rightarrow> time \<Rightarrow> bool" where
  "time_Before t u = (t < u)"

section \<open>The logging library's objects\<close>

text \<open>
  Loggers are handled through pointers, and two loggers may or may not share a formatter
  or a hook table. Objects therefore live in a store indexed by references; allocation
  hands out the next unused reference.
\<close>

type_synonym ref = nat

datatype level = PanicLevel | FatalLevel | ErrorLevel | WarnLevel | InfoLevel | DebugLevel | TraceLevel

datatype writer = Stderr | Discard | Writer nat

record Hook =
  hook_id :: nat
  Levels :: "level list"

record logrus_Logger =
  Out :: writer
  Hooks :: ref
  Formatter :: ref
  Level :: level

record logrus_Entry =
  Logger :: ref
  Data :: "(string \<times> string) list"

record heap =
  loggerObjs :: "ref \<rightharpoonup> logrus_Logger"
  hookTables :: "ref \<Rightarrow> level \<Rightarrow> Hook list"
  nextRef :: ref

text \<open>
  \<open>logrus.New()\<close>: a new logger writing to standard error, with a newly allocated text
  formatter, a newly made empty hook table, and level info.
\<close>

definition logrus_New :: "heap \<Rightarrow> ref \<times> heap" where
  "logrus_New h =
     (let f = nextRef h; hk = nextRef h + 1; l = nextRef h + 2
      in (l, h\<lparr>loggerObjs := (loggerObjs h)(l \<mapsto>
                   \<lparr>Out = Stderr, Hooks = hk, Formatter = f, Level = InfoLevel\<rparr>),
                hookTables := (hookTables h)(hk := (\<lambda>_. [])),
                nextRef := nextRef h + 3\<rparr>))"

text \<open>\<open>LevelHooks.Add\<close>: the hook is appended to the chain of each level it fires for.\<close>

definition LevelHooks_Add :: "ref \<Rightarrow> Hook \<Rightarrow> heap \<Rightarrow> heap" where
  "LevelHooks_Add r hook h =
     h\<lparr>hookTables := (hookTables h)(r :=
          fold (\<lambda>lv m. m(lv := m lv @ [hook])) (Levels hook) (hookTables h r))\<rparr>"

text \<open>Assignment to a field of the logger a pointer refers to.\<close>

definition update_logger :: "ref \<Rightarrow> (logrus_Logger \<Rightarrow> logrus_Logger) \<Rightarrow> heap \<Rightarrow> heap" where
  "update_logger r f h = h\<lparr>loggerObjs := (loggerObjs h)(r := map_option f (loggerObjs h r))\<rparr>"

definition WithField :: "ref \<Rightarrow> string \<Rightarrow> string \<Rightarrow> logrus_Entry" where
  "WithField logger key val = \<lparr>Logger = logger, Data = [(key, val)]\<rparr>"

section \<open>The key/value and publish/subscribe client\<close>

datatype error = Error string

datatype call =
    CallPublish string string
  | CallSet string int duration
  | CallDel string
  | CallKeys string
  | CallTTL string

text \<open>
  The client is an external service. Its model records the calls made, in order, and
  answers each call through a response function of the calls made so far and the
  arguments, so that any pattern of failures can be represented.
\<close>

record client =
  calls :: "call list"
  on_Publish :: "call list \<Rightarrow> string \<Rightarrow> string \<Rightarrow> error option"
  on_Set :: "call list \<Rightarrow> string \<Rightarrow> int \<Rightarrow> duration \<Rightarrow> error option"
  on_Del :: "call list \<Rightarrow> string \<Rightarrow> error option"
  on_Keys :: "call list \<Rightarrow> string \<Rightarrow> error + string list"
  on_TTL :: "call list \<Rightarrow> string \<Rightarrow> error + duration"

definition cli_Publish :: "client \<Rightarrow> string \<Rightarrow> string \<Rightarrow> error option \<times> client" where
  "cli_Publish c channel payload =
     (on_Publish c (calls c) channel payload, c\<lparr>calls := calls c @ [CallPublish channel payload]\<rparr>)"

definition cli_Set :: "client \<Rightarrow> string \<Rightarrow> int \<Rightarrow> duration \<Rightarrow> error option \<times> client" where
  "cli_Set c key val ttl =
     (on_Set c (calls c) key val ttl, c\<lparr>calls := calls c @ [CallSet key val ttl]\<rparr>)"

definition cli_Del :: "client \<Rightarrow> string \<Rightarrow> error option \<times> client" where
  "cli_Del c key = (on_Del c (calls c) key, c\<lparr>calls := calls c @ [CallDel key]\<rparr>)"

definition cli_Keys :: "client \<Rightarrow> string \<Rightarrow> (error + string list) \<times> client" where
  "cli_Keys c pattern = (on_Keys c (calls c) pattern, c\<lparr>calls := calls c @ [CallKeys pattern]\<rparr>)"

definition cli_TTL :: "client \<Rightarrow> string \<Rightarrow> (error + duration) \<times> client" where
  "cli_TTL c key = (on_TTL c (calls c) key, c\<lparr>calls := calls c @ [CallTTL key]\<rparr>)"

section \<open>Package state\<close>

definition debugRedisAddChannel :: string where
  "debugRedisAddChannel = ''add:log-debug''"

definition debugRedisRmvChannel :: string where
  "debugRedisRmvChannel = ''rmv:log-debug''"

definition debugRedisPrefix :: string where
  "debugRedisPrefix = ''debug:''"

record Options =
  Syslog :: bool
  LevelName :: string
  Redis :: "client option"

record domainEntry =
  log :: ref
  expiredAt :: "time option"

text \<open>
  The package variables \<open>opts\<close> and \<open>loggers\<close>, the object store, and the address
  \<open>std\<close> of the library's standard logger, which the package-level \<open>logrus.WithField\<close>
  uses.
\<close>

record world =
  opts :: Options
  loggers :: "string \<rightharpoonup> domainEntry"
  heap :: heap
  std :: ref

text \<open>
  What the package obtains from outside this file: the outcome of \<open>syslogHook()\<close>
  (defined elsewhere in the package) and the standard library's \<open>time.ParseDuration\<close>,
  which returns a duration together with an optional error.
\<close>

record env =
  syslogHook :: "error + Hook"
  ParseDuration :: "string \<Rightarrow> duration \<times> error option"

section \<open>Registry operations\<close>

text \<open>
  The registry is guarded by a lock; the model runs one call at a time, so each function
  is a function from the world before the call to the world after it. \<open>Expired\<close> and
  \<open>addDebugDomain\<close> read the clock; the reading is the argument \<open>now\<close>.
\<close>

definition Expired :: "time \<Rightarrow> domainEntry \<Rightarrow> bool" where
  "Expired now entry =
     (case expiredAt entry of
        None \<Rightarrow> False
      | Some t \<Rightarrow> time_Before t now)"

definition addDebugDomain :: "env \<Rightarrow> time \<Rightarrow> string \<Rightarrow> duration \<Rightarrow> world \<Rightarrow> world" where
  "addDebugDomain e now domain ttl w =
     (case loggers w domain of
        Some _ \<Rightarrow> w
      | None \<Rightarrow>
          (let (logger, h1) = logrus_New (heap w);
               h2 = update_logger logger (\<lambda>L. L\<lparr>Level := DebugLevel\<rparr>) h1;
               h3 = (if Syslog (opts w) then
                       (case syslogHook e of
                          Inr hook \<Rightarrow>
                            (case loggerObjs h2 logger of
                               Some L \<Rightarrow> update_logger logger (\<lambda>L. L\<lparr>Out := Discard\<rparr>)
                                           (LevelHooks_Add (Hooks L) hook h2)
                             | None \<Rightarrow> h2)
                        | Inl _ \<Rightarrow> h2)
                     else h2);
               expiredAt = time_Add now ttl
           in w\<lparr>heap := h3,
                loggers := (loggers w)(domain \<mapsto> \<lparr>log = logger, expiredAt = Some expiredAt\<rparr>)\<rparr>))"

definition removeDebugDomain :: "string \<Rightarrow> world \<Rightarrow> world" where
  "removeDebugDomain domain w = w\<lparr>loggers := (loggers w)(domain := None)\<rparr>"

definition WithDomain :: "time \<Rightarrow> string \<Rightarrow> world \<Rightarrow> logrus_Entry \<times> world" where
  "WithDomain now domain w =
     (case loggers w domain of
        Some entry \<Rightarrow>
          if \<not> Expired now entry then (WithField (log entry) ''domain'' domain, w)
          else (WithField (std w) ''domain'' domain, removeDebugDomain domain w)
      | None \<Rightarrow> (WithField (std w) ''domain'' domain, w))"

definition DebugExpiration :: "string \<Rightarrow> world \<Rightarrow> time option" where
  "DebugExpiration domain w =
     (case loggers w domain of
        None \<Rightarrow> None
      | Some entry \<Rightarrow> expiredAt entry)"

definition IsDebug :: "heap \<Rightarrow> logrus_Entry \<Rightarrow> bool" where
  "IsDebug h logger = (map_option Level (loggerObjs h (Logger logger)) = Some DebugLevel)"

section \<open>Standard library string functions\<close>

text \<open>
  \<open>time.Duration.String\<close> of the Go standard library. The library fills a buffer from
  its end towards its front; here the buffer is the string written so far, and writing
  one more byte in front of it is \<open>#\<close>. The magnitude is taken in uint64, which holds
  the magnitude of every int64.
\<close>

definition Microsecond :: nat where "Microsecond = 1000"
definition Millisecond :: nat where "Millisecond = 1000000"
definition Second :: nat where "Second = 1000000000"

definition digit :: "nat \<Rightarrow> char" where
  "digit n = ''0123456789'' ! n"

function fmtInt_loop :: "string \<Rightarrow> nat \<Rightarrow> string" where
  "fmtInt_loop buf v = (if v > 0 then fmtInt_loop (digit (v mod 10) # buf) (v div 10) else buf)"
  by pat_completeness auto
termination
  by (relation "measure (\<lambda>(buf, v). v)") auto

definition fmtInt :: "string \<Rightarrow> nat \<Rightarrow> string" where
  "fmtInt buf v = (if v = 0 then CHR ''0'' # buf else fmtInt_loop buf v)"

function fmtFrac_loop :: "nat \<Rightarrow> nat \<Rightarrow> bool \<Rightarrow> string \<Rightarrow> nat \<Rightarrow> bool \<times> string \<times> nat" where
  "fmtFrac_loop i prec print buf v =
     (if i < prec then
        (let d = v mod 10;
             print' = (print \<or> d \<noteq> 0);
             buf' = (if print' then digit d # buf else buf)
         in fmtFrac_loop (i + 1) prec print' buf' (v div 10))
      else (print, buf, v))"
  by pat_completeness auto
termination
  by (relation "measure (\<lambda>(i, prec, print, buf, v). prec - i)") auto

definition fmtFrac :: "string \<Rightarrow> nat \<Rightarrow> nat \<Rightarrow> string \<times> nat" where
  "fmtFrac buf v prec =
     (case fmtFrac_loop 0 prec False buf v of
        (print, buf', v') \<Rightarrow> (if print then CHR ''.'' # buf' else buf', v'))"

definition Duration_String :: "duration \<Rightarrow> string" where
  "Duration_String d =
     (let u = nat \<bar>d\<bar>;
          neg = (d < 0);
          buf =
            (if u < Second then
               (if u = 0 then ''0s''
                else if u < Microsecond then
                  (case fmtFrac ''ns'' u 0 of (b, u') \<Rightarrow> fmtInt b u')
                else if u < Millisecond then
                  (case fmtFrac [CHR 0xC2, CHR 0xB5, CHR ''s''] u 3 of (b, u') \<Rightarrow> fmtInt b u')
                else
                  (case fmtFrac ''ms'' u 6 of (b, u') \<Rightarrow> fmtInt b u'))
             else
               (case fmtFrac ''s'' u 9 of
                  (b, u1) \<Rightarrow>
                    (let b1 = fmtInt b (u1 mod 60);
                         u2 = u1 div 60
                     in if u2 > 0 then
                          (let b2 = fmtInt (CHR ''m'' # b1) (u2 mod 60);
                               u3 = u2 div 60
                           in if u3 > 0 then fmtInt (CHR ''h'' # b2) u3 else b2)
                        else b1)))
      in if neg then CHR ''-'' # buf else buf)"

text \<open>
  \<open>strings.Split(s, sep)\<close> for a separator of one byte: the substrings between the
  occurrences of the separator, in order. The result is never empty.
\<close>

fun Split_from :: "char \<Rightarrow> string \<Rightarrow> string \<Rightarrow> string list" where
  "Split_from c acc [] = [acc]"
| "Split_from c acc (x # xs) =
     (if x = c then acc # Split_from c [] xs else Split_from c (acc @ [x]) xs)"

definition Split :: "string \<Rightarrow> char \<Rightarrow> string list" where
  "Split s c = Split_from c [] s"

definition TrimPrefix :: "string \<Rightarrow> string \<Rightarrow> string" where
  "TrimPrefix s pre = (if take (length pre) s = pre then drop (length pre) s else s)"

section \<open>The send path\<close>

definition publishDebug ::
    "client \<Rightarrow> string \<Rightarrow> string \<Rightarrow> duration \<Rightarrow> error option \<times> client" where
  "publishDebug cli channel domain ttl =
     (case cli_Publish cli channel (domain @ ''/'' @ Duration_String ttl) of
        (Some err, cli1) \<Rightarrow> (Some err, cli1)
      | (None, cli1) \<Rightarrow>
          (let key = debugRedisPrefix @ domain
           in if channel = debugRedisAddChannel then cli_Set cli1 key 0 ttl
              else cli_Del cli1 key))"

definition AddDebugDomain ::
    "env \<Rightarrow> time \<Rightarrow> string \<Rightarrow> duration \<Rightarrow> world \<Rightarrow> error option \<times> world" where
  "AddDebugDomain e now domain ttl w =
     (case Redis (opts w) of
        Some cli \<Rightarrow>
          (case publishDebug cli debugRedisAddChannel domain ttl of
             (err, cli') \<Rightarrow> (err, w\<lparr>opts := (opts w)\<lparr>Redis := Some cli'\<rparr>\<rparr>))
      | None \<Rightarrow> (None, addDebugDomain e now domain ttl w))"

definition RemoveDebugDomain :: "string \<Rightarrow> world \<Rightarrow> error option \<times> world" where
  "RemoveDebugDomain domain w =
     (case Redis (opts w) of
        Some cli \<Rightarrow>
          (case publishDebug cli debugRedisRmvChannel domain 0 of
             (err, cli') \<Rightarrow> (err, w\<lparr>opts := (opts w)\<lparr>Redis := Some cli'\<rparr>\<rparr>))
      | None \<Rightarrow> (None, removeDebugDomain domain w))"

section \<open>The receive path\<close>

record Message =
  Channel :: string
  Payload :: string

datatype panic = IndexOutOfRange

text \<open>
  One round of the loop of \<open>subscribeLoggersDebug\<close>, for a message received when the
  clock reads \<open>now\<close>. Reading \<open>parts[0]\<close> of an empty slice would panic.
\<close>

definition handleMessage :: "env \<Rightarrow> time \<Rightarrow> Message \<Rightarrow> world \<Rightarrow> panic + world" where
  "handleMessage e now msg w =
     (let parts = Split (Payload msg) CHR ''/''
      in case parts of
           [] \<Rightarrow> Inl IndexOutOfRange
         | domain # _ \<Rightarrow>
             if Channel msg = debugRedisAddChannel then
               (let ttl = (if length parts \<ge> 2 then fst (ParseDuration e (parts ! 1)) else 0)
                in Inr (addDebugDomain e now domain ttl w))
             else if Channel msg = debugRedisRmvChannel then
               Inr (removeDebugDomain domain w)
             else Inr w)"

text \<open>The loop over the messages delivered, each with the clock reading at its arrival.\<close>

fun subscribeLoggersDebug :: "env \<Rightarrow> (time \<times> Message) list \<Rightarrow> world \<Rightarrow> panic + world" where
  "subscribeLoggersDebug e [] w = Inr w"
| "subscribeLoggersDebug e ((now, msg) # msgs) w =
     (case handleMessage e now msg w of
        Inl p \<Rightarrow> Inl p
      | Inr w' \<Rightarrow> subscribeLoggersDebug e msgs w')"

section \<open>The bootstrap loader\<close>

text \<open>
  The loop of \<open>loadDebug\<close> over the keys listed; \<open>clock i\<close> is the clock reading during
  the round for the key at position \<open>i\<close>.
\<close>

fun loadDebug_keys ::
    "env \<Rightarrow> (nat \<Rightarrow> time) \<Rightarrow> nat \<Rightarrow> string list \<Rightarrow> client \<times> world \<Rightarrow> client \<times> world" where
  "loadDebug_keys e clock i [] (cli, w) = (cli, w)"
| "loadDebug_keys e clock i (key # keys) (cli, w) =
     (case cli_TTL cli key of
        (Inl err, cli') \<Rightarrow> loadDebug_keys e clock (Suc i) keys (cli', w)
      | (Inr ttl, cli') \<Rightarrow>
          (let domain = TrimPrefix key debugRedisPrefix
           in loadDebug_keys e clock (Suc i) keys (cli', addDebugDomain e (clock i) domain ttl w)))"

definition loadDebug :: "env \<Rightarrow> (nat \<Rightarrow> time) \<Rightarrow> client \<Rightarrow> world \<Rightarrow> client \<times> world" where
  "loadDebug e clock cli w =
     (case cli_Keys cli (debugRedisPrefix @ ''*'') of
        (Inl err, cli') \<Rightarrow> (cli', w)
      | (Inr keys, cli') \<Rightarrow> loadDebug_keys e clock 0 keys (cli', w))"

section \<open>Reachable states and their invariant\<close>

text \<open>
  The package starts with an empty registry and a standard logger that is already
  allocated. Afterwards the world changes through the exported functions, the messages
  handled by the subscription loop and the bootstrap loader.
\<close>

inductive reachable :: "world \<Rightarrow> bool" where
  reach_init: "loggers w = Map.empty \<Longrightarrow> std w < nextRef (heap w) \<Longrightarrow> reachable w"
| reach_Add: "reachable w \<Longrightarrow> reachable (snd (AddDebugDomain e now domain ttl w))"
| reach_Remove: "reachable w \<Longrightarrow> reachable (snd (RemoveDebugDomain domain w))"
| reach_WithDomain: "reachable w \<Longrightarrow> reachable (snd (WithDomain now domain w))"
| reach_message: "reachable w \<Longrightarrow> handleMessage e now msg w = Inr w' \<Longrightarrow> reachable w'"
| reach_load: "reachable w \<Longrightarrow> loadDebug e clock cli w = (cli', w') \<Longrightarrow> reachable w'"

definition registry_inv :: "world \<Rightarrow> bool" where
  "registry_inv w =
     (std w < nextRef (heap w) \<and>
      (\<forall>d en. loggers w d = Some en \<longrightarrow>
         expiredAt en \<noteq> None \<and> log en < nextRef (heap w) \<and> log en \<noteq> std w \<and>
         map_option Level (loggerObjs (heap w) (log en)) = Some DebugLevel))"

section \<open>Example configurations\<close>

text \<open>
  Concrete worlds on which the theorems below are exercised. The standard logger of
  \<open>heap0\<close> writes to a file and carries one hook; \<open>parse0\<close> stands for the duration
  parser on the few strings used.
\<close>

definition hook0 :: Hook where
  "hook0 = \<lparr>hook_id = 7, Levels = [ErrorLevel, InfoLevel]\<rparr>"

definition syslog_hook0 :: Hook where
  "syslog_hook0 =
     \<lparr>hook_id = 9,
      Levels = [PanicLevel, FatalLevel, ErrorLevel, WarnLevel, InfoLevel, DebugLevel, TraceLevel]\<rparr>"

definition base_logger0 :: logrus_Logger where
  "base_logger0 = \<lparr>Out = Writer 1, Hooks = 1, Formatter = 0, Level = InfoLevel\<rparr>"

definition heap0 :: heap where
  "heap0 = \<lparr>loggerObjs = [2 \<mapsto> base_logger0],
            hookTables = (\<lambda>_ _. [])(1 := (\<lambda>_. [])(ErrorLevel := [hook0], InfoLevel := [hook0])),
            nextRef = 3\<rparr>"

definition parse0 :: "string \<Rightarrow> duration \<times> error option" where
  "parse0 s =
     (if s = ''5m0s'' then (300000000000, None)
      else if s = ''0s'' then (0, None)
      else (0, Some (Error ''time: invalid duration'')))"

definition env0 :: env where
  "env0 = \<lparr>syslogHook = Inr syslog_hook0, ParseDuration = parse0\<rparr>"

definition world0 :: world where
  "world0 = \<lparr>opts = \<lparr>Syslog = False, LevelName = ''info'', Redis = None\<rparr>,
             loggers = Map.empty, heap = heap0, std = 2\<rparr>"

definition world1 :: world where
  "world1 = snd (AddDebugDomain env0 100 ''a.example'' 50 world0)"

text \<open>
  Clients: one on which every call succeeds except the time-to-live query for one key,
  and variants on which the publication, the key write and deletion, or the key listing
  fail.
\<close>

definition client0 :: client where
  "client0 =
     \<lparr>calls = [],
      on_Publish = (\<lambda>_ _ _. None),
      on_Set = (\<lambda>_ _ _ _. None),
      on_Del = (\<lambda>_ _. None),
      on_Keys = (\<lambda>_ _. Inr [''debug:a.example'', ''debug:b.example'', ''debug:c.example'']),
      on_TTL = (\<lambda>_ key. if key = ''debug:b.example'' then Inl (Error ''i/o timeout'')
                         else Inr 30000000000)\<rparr>"

definition client_pubfail :: client where
  "client_pubfail = client0\<lparr>on_Publish := (\<lambda>_ _ _. Some (Error ''connection refused''))\<rparr>"

definition client_keyfail :: client where
  "client_keyfail = client0\<lparr>on_Set := (\<lambda>_ _ _ _. Some (Error ''READONLY'')),
                            on_Del := (\<lambda>_ _. Some (Error ''READONLY''))\<rparr>"

definition client_listfail :: client where
  "client_listfail = client0\<lparr>on_Keys := (\<lambda>_ _. Inl (Error ''connection refused''))\<rparr>"

definition world_dist :: "client \<Rightarrow> world" where
  "world_dist cli = world0\<lparr>opts := (opts world0)\<lparr>Redis := Some cli\<rparr>\<rparr>"

definition clock0 :: "nat \<Rightarrow> time" where
  "clock0 i = 1000 + int i"

definition world_syslog :: world where
  "world_syslog = world0\<lparr>opts := (opts world0)\<lparr>Syslog := True\<rparr>\<rparr>"

section \<open>Facts about the registry operations\<close>

lemma addDebugDomain_present:
  "loggers w d = Some en \<Longrightarrow> addDebugDomain e now d ttl w = w"
  by (simp add: addDebugDomain_def)

lemma addDebugDomain_loggers:
  "loggers w d = None \<Longrightarrow>
   loggers (addDebugDomain e now d ttl w) =
     (loggers w)(d \<mapsto> \<lparr>log = nextRef (heap w) + 2, expiredAt = Some (now + ttl)\<rparr>)"
  by (simp add: addDebugDomain_def logrus_New_def Let_def time_Add_def)

lemma addDebugDomain_new_logger:
  "loggers w d = None \<Longrightarrow>
   loggerObjs (heap (addDebugDomain e now d ttl w)) (nextRef (heap w) + 2) =
     Some \<lparr>Out = (if Syslog (opts w) \<and> isl (syslogHook e) = False then Discard else Stderr),
           Hooks = nextRef (heap w) + 1, Formatter = nextRef (heap w), Level = DebugLevel\<rparr>"
  by (simp add: addDebugDomain_def logrus_New_def Let_def update_logger_def LevelHooks_Add_def
      split: sum.splits)

lemma addDebugDomain_old_logger:
  "r < nextRef (heap w) \<Longrightarrow>
   loggerObjs (heap (addDebugDomain e now d ttl w)) r = loggerObjs (heap w) r"
  by (simp add: addDebugDomain_def logrus_New_def Let_def update_logger_def LevelHooks_Add_def
      split: option.splits sum.splits)

lemma addDebugDomain_old_hooks:
  "r < nextRef (heap w) \<Longrightarrow>
   hookTables (heap (addDebugDomain e now d ttl w)) r = hookTables (heap w) r"
  by (simp add: addDebugDomain_def logrus_New_def Let_def update_logger_def LevelHooks_Add_def
      split: option.splits sum.splits)

lemma addDebugDomain_nextRef:
  "nextRef (heap (addDebugDomain e now d ttl w)) =
     (if loggers w d = None then nextRef (heap w) + 3 else nextRef (heap w))"
  by (simp add: addDebugDomain_def logrus_New_def Let_def update_logger_def LevelHooks_Add_def
      split: option.splits sum.splits)

lemma addDebugDomain_std [simp]: "std (addDebugDomain e now d ttl w) = std w"
  by (simp add: addDebugDomain_def Let_def split: option.splits prod.splits)

lemma addDebugDomain_opts [simp]: "opts (addDebugDomain e now d ttl w) = opts w"
  by (simp add: addDebugDomain_def Let_def split: option.splits prod.splits)

lemma addDebugDomain_keeps:
  "loggers w d = Some en \<Longrightarrow> loggers (addDebugDomain e now d' ttl w) d = Some en"
  by (cases "loggers w d'") (auto simp: addDebugDomain_loggers addDebugDomain_present)

lemma addDebugDomain_other:
  "d \<noteq> d' \<Longrightarrow> loggers (addDebugDomain e now d' ttl w) d = loggers w d"
  by (cases "loggers w d'") (auto simp: addDebugDomain_loggers addDebugDomain_present)

lemma addDebugDomain_registers:
  "\<exists>en. loggers (addDebugDomain e now d ttl w) d = Some en"
  by (cases "loggers w d") (simp_all add: addDebugDomain_loggers addDebugDomain_present)

lemma addDebugDomain_inv:
  assumes "registry_inv w"
  shows "registry_inv (addDebugDomain e now d ttl w)"
proof (cases "loggers w d")
  case (Some en)
  then show ?thesis using assms by (simp add: addDebugDomain_present)
next
  case None
  let ?w = "addDebugDomain e now d ttl w"
  have std: "std ?w < nextRef (heap ?w)"
    using assms None by (simp add: registry_inv_def addDebugDomain_nextRef)
  have "expiredAt en \<noteq> None \<and> log en < nextRef (heap ?w) \<and> log en \<noteq> std ?w \<and>
        map_option Level (loggerObjs (heap ?w) (log en)) = Some DebugLevel"
    if look: "loggers ?w d' = Some en" for d' en
  proof (cases "d' = d")
    case True
    with look None have en: "en = \<lparr>log = nextRef (heap w) + 2, expiredAt = Some (now + ttl)\<rparr>"
      by (simp add: addDebugDomain_loggers)
    have "std w < nextRef (heap w)" using assms by (simp add: registry_inv_def)
    then show ?thesis
      using None addDebugDomain_new_logger [OF None, of e now ttl]
      by (simp add: en addDebugDomain_nextRef)
  next
    case False
    with look None have old: "loggers w d' = Some en"
      by (simp add: addDebugDomain_loggers)
    with assms have props: "expiredAt en \<noteq> None" "log en < nextRef (heap w)" "log en \<noteq> std w"
        "map_option Level (loggerObjs (heap w) (log en)) = Some DebugLevel"
      unfolding registry_inv_def by blast+
    then show ?thesis
      using None by (simp add: addDebugDomain_nextRef addDebugDomain_old_logger)
  qed
  with std show ?thesis unfolding registry_inv_def by blast
qed

lemma removeDebugDomain_inv:
  "registry_inv w \<Longrightarrow> registry_inv (removeDebugDomain d w)"
  by (simp add: registry_inv_def removeDebugDomain_def)

lemma WithDomain_inv:
  "registry_inv w \<Longrightarrow> registry_inv (snd (WithDomain now d w))"
  by (simp add: WithDomain_def removeDebugDomain_inv split: option.splits)

lemma opts_update_inv:
  "registry_inv w \<Longrightarrow> registry_inv (w\<lparr>opts := x\<rparr>)"
  by (simp add: registry_inv_def)

lemma AddDebugDomain_inv:
  "registry_inv w \<Longrightarrow> registry_inv (snd (AddDebugDomain e now d ttl w))"
  by (simp add: AddDebugDomain_def addDebugDomain_inv opts_update_inv split: option.splits prod.splits)

lemma RemoveDebugDomain_inv:
  "registry_inv w \<Longrightarrow> registry_inv (snd (RemoveDebugDomain d w))"
  by (simp add: RemoveDebugDomain_def removeDebugDomain_inv opts_update_inv
      split: option.splits prod.splits)

lemma handleMessage_inv:
  "registry_inv w \<Longrightarrow> handleMessage e now msg w = Inr w' \<Longrightarrow> registry_inv w'"
  by (auto simp: handleMessage_def Let_def addDebugDomain_inv removeDebugDomain_inv
      split: list.splits if_splits)

lemma loadDebug_keys_inv:
  "registry_inv w \<Longrightarrow> registry_inv (snd (loadDebug_keys e clock i keys (cli, w)))"
proof (induction keys arbitrary: i cli w)
  case Nil
  then show ?case by simp
next
  case (Cons key keys)
  show ?case
  proof (cases "cli_TTL cli key")
    case (Pair res cli')
    show ?thesis
    proof (cases res)
      case (Inl err)
      with Pair Cons show ?thesis by simp
    next
      case (Inr ttl)
      with Pair show ?thesis
        by (simp add: Let_def Cons.IH [OF addDebugDomain_inv [OF Cons.prems]])
    qed
  qed
qed

lemma loadDebug_inv:
  "registry_inv w \<Longrightarrow> registry_inv (snd (loadDebug e clock cli w))"
  by (simp add: loadDebug_def loadDebug_keys_inv split: prod.splits sum.splits)

lemma reachable_inv: "reachable w \<Longrightarrow> registry_inv w"
proof (induction rule: reachable.induct)
  case (reach_init w)
  then show ?case by (simp add: registry_inv_def)
next
  case (reach_Add w e now domain ttl)
  then show ?case by (simp add: AddDebugDomain_inv)
next
  case (reach_Remove w domain)
  then show ?case by (simp add: RemoveDebugDomain_inv)
next
  case (reach_WithDomain w now domain)
  then show ?case by (simp add: WithDomain_inv)
next
  case (reach_message w e now msg w')
  then show ?case by (blast intro: handleMessage_inv)
next
  case (reach_load w e clock cli cli' w')
  from loadDebug_inv [OF reach_load.IH, of e clock cli] reach_load.hyps(2)
  show ?case by simp
qed

lemma world0_reachable: "reachable world0"
  by (rule reach_init) (simp_all add: world0_def heap0_def)

lemma world1_reachable: "reachable world1"
  unfolding world1_def by (rule reach_Add [OF world0_reachable])

lemma world1_loggers: "loggers world1 = [''a.example'' \<mapsto> \<lparr>log = 5, expiredAt = Some 150\<rparr>]"
  by (simp add: world1_def AddDebugDomain_def world0_def addDebugDomain_loggers heap0_def)

lemma world1_std: "std world1 = 2"
  by (simp add: world1_def AddDebugDomain_def world0_def)

section \<open>Looking up the logger of a domain\<close>

text \<open>
  C1. In every reachable world and for every domain \<open>D\<close>: when the registry holds an entry
  for \<open>D\<close> that is not expired at the time of the call, \<open>WithDomain\<close> returns that
  entry's logger tagged with \<open>D\<close>, the world is unchanged, and that logger is at debug
  level; when the entry is expired, the entry is removed and the standard (base) logger
  tagged with \<open>D\<close> is returned; when there is no entry, the standard logger tagged with
  \<open>D\<close> is returned and the world is unchanged. \<open>WithDomain\<close> has no failing branch.
\<close>

theorem WithDomain_cases:
  assumes "reachable w"
  shows "(\<forall>en. loggers w D = Some en \<and> \<not> Expired now en \<longrightarrow>
            WithDomain now D w = (WithField (log en) ''domain'' D, w) \<and>
            IsDebug (heap w) (WithField (log en) ''domain'' D))
       \<and> (\<forall>en. loggers w D = Some en \<and> Expired now en \<longrightarrow>
            WithDomain now D w = (WithField (std w) ''domain'' D, removeDebugDomain D w) \<and>
            loggers (removeDebugDomain D w) D = None)
       \<and> (loggers w D = None \<longrightarrow> WithDomain now D w = (WithField (std w) ''domain'' D, w))"
proof -
  from assms have inv: "registry_inv w" by (rule reachable_inv)
  have "IsDebug (heap w) (WithField (log en) ''domain'' D)" if "loggers w D = Some en" for en
    using inv that unfolding registry_inv_def IsDebug_def WithField_def by auto
  then show ?thesis
    by (auto simp: WithDomain_def removeDebugDomain_def)
qed

theorem WithDomain_cases_witness:
  "reachable world1
   \<and> loggers world1 ''a.example'' = Some \<lparr>log = 5, expiredAt = Some 150\<rparr>
   \<and> \<not> Expired 120 \<lparr>log = 5, expiredAt = Some 150\<rparr>
   \<and> WithDomain 120 ''a.example'' world1 = (\<lparr>Logger = 5, Data = [(''domain'', ''a.example'')]\<rparr>, world1)
   \<and> IsDebug (heap world1) \<lparr>Logger = 5, Data = [(''domain'', ''a.example'')]\<rparr>
   \<and> Expired 200 \<lparr>log = 5, expiredAt = Some 150\<rparr>
   \<and> WithDomain 200 ''a.example'' world1 =
       (\<lparr>Logger = 2, Data = [(''domain'', ''a.example'')]\<rparr>, removeDebugDomain ''a.example'' world1)
   \<and> loggers (removeDebugDomain ''a.example'' world1) ''a.example'' = None
   \<and> loggers world1 ''b.example'' = None
   \<and> WithDomain 200 ''b.example'' world1 = (\<lparr>Logger = 2, Data = [(''domain'', ''b.example'')]\<rparr>, world1)"
proof -
  have a: "loggers world1 ''a.example'' = Some \<lparr>log = 5, expiredAt = Some 150\<rparr>"
    and b: "loggers world1 ''b.example'' = None"
    by (simp_all add: world1_loggers)
  have fresh: "\<not> Expired 120 \<lparr>log = 5, expiredAt = Some 150\<rparr>"
    and stale: "Expired 200 \<lparr>log = 5, expiredAt = Some 150\<rparr>"
    by (simp_all add: Expired_def time_Before_def)
  from WithDomain_cases [OF world1_reachable, of "''a.example''" 120]
       WithDomain_cases [OF world1_reachable, of "''a.example''" 200]
       WithDomain_cases [OF world1_reachable, of "''b.example''" 200]
       a b fresh stale world1_std world1_reachable
  show ?thesis by (simp add: WithField_def)
qed

section \<open>Activation and deactivation in local mode\<close>

text \<open>
  C2. In local mode (no client configured), for every domain \<open>D\<close> and durations \<open>t1\<close>,
  \<open>t2\<close>: activating \<open>D\<close> with \<open>t1\<close> and then with \<open>t2\<close> returns success and leaves the
  world after the first activation unchanged. When \<open>D\<close> had no entry before, the entry
  is the one made by the first call, with the expiry computed from \<open>t1\<close>.
\<close>

theorem AddDebugDomain_twice:
  assumes "Redis (opts w) = None"
  shows "AddDebugDomain e now2 D t2 (snd (AddDebugDomain e now1 D t1 w)) =
           (None, snd (AddDebugDomain e now1 D t1 w))
       \<and> (loggers w D = None \<longrightarrow>
            loggers (snd (AddDebugDomain e now2 D t2 (snd (AddDebugDomain e now1 D t1 w)))) D =
              Some \<lparr>log = nextRef (heap w) + 2, expiredAt = Some (time_Add now1 t1)\<rparr>)"
proof -
  let ?w1 = "addDebugDomain e now1 D t1 w"
  have first: "snd (AddDebugDomain e now1 D t1 w) = ?w1"
    using assms by (simp add: AddDebugDomain_def)
  have present: "\<exists>en. loggers ?w1 D = Some en"
  proof (cases "loggers w D")
    case None
    then show ?thesis by (simp add: addDebugDomain_loggers)
  next
    case (Some en)
    then show ?thesis by (simp add: addDebugDomain_present)
  qed
  then obtain en where "loggers ?w1 D = Some en" ..
  then have again: "addDebugDomain e now2 D t2 ?w1 = ?w1"
    by (rule addDebugDomain_present)
  have second: "AddDebugDomain e now2 D t2 ?w1 = (None, ?w1)"
    using assms again by (simp add: AddDebugDomain_def)
  show ?thesis
    by (simp add: first second addDebugDomain_loggers time_Add_def)
qed

theorem AddDebugDomain_twice_witness:
  "Redis (opts world0) = None
   \<and> loggers world0 ''a.example'' = None
   \<and> AddDebugDomain env0 130 ''a.example'' 7 world1 = (None, world1)
   \<and> loggers (snd (AddDebugDomain env0 130 ''a.example'' 7 world1)) ''a.example'' =
       Some \<lparr>log = 5, expiredAt = Some 150\<rparr>"
proof -
  have local: "Redis (opts world0) = None"
    and absent: "loggers world0 ''a.example'' = None"
    and nr: "nextRef (heap world0) = 3"
    by (simp_all add: world0_def heap0_def)
  from AddDebugDomain_twice [OF local, of env0 130 "''a.example''" 7 100 50, folded world1_def]
       local absent nr
  show ?thesis by (simp add: time_Add_def world1_loggers)
qed

text \<open>
  C9. In local mode, for every domain \<open>D\<close> and duration: activating \<open>D\<close> and then
  deactivating it both succeed and leave no entry for \<open>D\<close>; the next \<open>WithDomain\<close>
  returns the standard (base) logger tagged with \<open>D\<close>, whose stored configuration is
  what it was before the activation, and \<open>DebugExpiration\<close> reports nil. (The duration
  need not be positive for this.)
\<close>

theorem activate_deactivate_round_trip:
  assumes "reachable w" and "Redis (opts w) = None"
  shows "fst (AddDebugDomain e now1 D ttl w) = None
       \<and> fst (RemoveDebugDomain D (snd (AddDebugDomain e now1 D ttl w))) = None
       \<and> loggers (snd (RemoveDebugDomain D (snd (AddDebugDomain e now1 D ttl w)))) D = None
       \<and> fst (WithDomain now2 D (snd (RemoveDebugDomain D (snd (AddDebugDomain e now1 D ttl w))))) =
           WithField (std w) ''domain'' D
       \<and> loggerObjs (heap (snd (RemoveDebugDomain D (snd (AddDebugDomain e now1 D ttl w))))) (std w) =
           loggerObjs (heap w) (std w)
       \<and> DebugExpiration D (snd (RemoveDebugDomain D (snd (AddDebugDomain e now1 D ttl w)))) = None
       \<and> DebugExpiration D
           (snd (WithDomain now2 D (snd (RemoveDebugDomain D (snd (AddDebugDomain e now1 D ttl w)))))) = None"
proof -
  let ?w1 = "addDebugDomain e now1 D ttl w"
  let ?w2 = "removeDebugDomain D ?w1"
  from assms(1) have "registry_inv w" by (rule reachable_inv)
  then have std: "std w < nextRef (heap w)" by (simp add: registry_inv_def)
  have add: "AddDebugDomain e now1 D ttl w = (None, ?w1)"
    using assms(2) by (simp add: AddDebugDomain_def)
  have rem: "RemoveDebugDomain D ?w1 = (None, ?w2)"
    using assms(2) by (simp add: RemoveDebugDomain_def)
  have gone: "loggers ?w2 D = None"
    by (simp add: removeDebugDomain_def)
  have look: "WithDomain now2 D ?w2 = (WithField (std w) ''domain'' D, ?w2)"
    using gone by (simp add: WithDomain_def removeDebugDomain_def)
  have base: "loggerObjs (heap ?w2) (std w) = loggerObjs (heap w) (std w)"
    using std by (simp add: removeDebugDomain_def addDebugDomain_old_logger)
  show ?thesis
    using gone by (simp add: add rem look base DebugExpiration_def)
qed

theorem activate_deactivate_round_trip_witness:
  "reachable world0 \<and> Redis (opts world0) = None
   \<and> fst (AddDebugDomain env0 100 ''a.example'' 300000000000 world0) = None
   \<and> fst (RemoveDebugDomain ''a.example'' (snd (AddDebugDomain env0 100 ''a.example'' 300000000000 world0))) = None
   \<and> fst (WithDomain 101 ''a.example''
        (snd (RemoveDebugDomain ''a.example'' (snd (AddDebugDomain env0 100 ''a.example'' 300000000000 world0))))) =
       \<lparr>Logger = 2, Data = [(''domain'', ''a.example'')]\<rparr>
   \<and> loggerObjs (heap
        (snd (RemoveDebugDomain ''a.example'' (snd (AddDebugDomain env0 100 ''a.example'' 300000000000 world0))))) 2 =
       Some base_logger0
   \<and> DebugExpiration ''a.example''
        (snd (RemoveDebugDomain ''a.example'' (snd (AddDebugDomain env0 100 ''a.example'' 300000000000 world0)))) = None"
proof -
  have local: "Redis (opts world0) = None" and std0: "std world0 = 2"
    and base: "loggerObjs (heap world0) 2 = Some base_logger0"
    by (simp_all add: world0_def heap0_def)
  from activate_deactivate_round_trip
         [OF world0_reachable local, of env0 100 "''a.example''" 300000000000 101]
       local std0 base world0_reachable
  show ?thesis by (simp add: WithField_def)
qed

section \<open>Querying the expiry\<close>

text \<open>
  C10. \<open>DebugExpiration\<close> only reads the registry (it returns no new world) and never
  consults the clock. In every reachable world: when the registry holds an entry for
  \<open>D\<close>, the stored expiry is returned, also when the entry is already expired at \<open>now\<close>,
  in which case the timestamp returned lies before \<open>now\<close>; nil is returned exactly when
  the registry holds no entry for \<open>D\<close>, as after \<open>removeDebugDomain\<close> or after a
  \<open>WithDomain\<close> call that found the entry expired.
\<close>

theorem DebugExpiration_ignores_expiry:
  assumes "reachable w"
  shows "(\<forall>en. loggers w D = Some en \<longrightarrow>
            (\<exists>t. expiredAt en = Some t \<and> DebugExpiration D w = Some t \<and>
                 (Expired now en \<longrightarrow> time_Before t now)))
       \<and> (DebugExpiration D w = None \<longleftrightarrow> loggers w D = None)
       \<and> DebugExpiration D (removeDebugDomain D w) = None
       \<and> (\<forall>en. loggers w D = Some en \<and> Expired now en \<longrightarrow>
            DebugExpiration D (snd (WithDomain now D w)) = None)"
proof -
  from assms have inv: "registry_inv w" by (rule reachable_inv)
  have some: "\<exists>t. expiredAt en = Some t" if "loggers w D = Some en" for en
    using inv that unfolding registry_inv_def by auto
  have c1: "\<exists>t. expiredAt en = Some t \<and> DebugExpiration D w = Some t \<and>
                 (Expired now en \<longrightarrow> time_Before t now)"
    if "loggers w D = Some en" for en
    using some [OF that] that by (auto simp: DebugExpiration_def Expired_def)
  have c2: "DebugExpiration D w = None \<longleftrightarrow> loggers w D = None"
    using some by (auto simp: DebugExpiration_def split: option.splits)
  have c3: "DebugExpiration D (removeDebugDomain D w) = None"
    by (simp add: DebugExpiration_def removeDebugDomain_def)
  have c4: "DebugExpiration D (snd (WithDomain now D w)) = None"
    if "loggers w D = Some en \<and> Expired now en" for en
    using that by (simp add: WithDomain_def DebugExpiration_def removeDebugDomain_def)
  from c1 c2 c3 c4 show ?thesis by blast
qed

theorem DebugExpiration_ignores_expiry_witness:
  "reachable world1
   \<and> loggers world1 ''a.example'' = Some \<lparr>log = 5, expiredAt = Some 150\<rparr>
   \<and> Expired 200 \<lparr>log = 5, expiredAt = Some 150\<rparr>
   \<and> DebugExpiration ''a.example'' world1 = Some 150
   \<and> time_Before 150 200
   \<and> DebugExpiration ''a.example'' (snd (WithDomain 200 ''a.example'' world1)) = None
   \<and> DebugExpiration ''a.example'' (removeDebugDomain ''a.example'' world1) = None
   \<and> loggers world1 ''b.example'' = None
   \<and> DebugExpiration ''b.example'' world1 = None"
proof -
  have a: "loggers world1 ''a.example'' = Some \<lparr>log = 5, expiredAt = Some 150\<rparr>"
    and b: "loggers world1 ''b.example'' = None"
    by (simp_all add: world1_loggers)
  have stale: "Expired 200 \<lparr>log = 5, expiredAt = Some 150\<rparr>"
    by (simp add: Expired_def time_Before_def)
  from DebugExpiration_ignores_expiry [OF world1_reachable, of "''a.example''" 200]
       DebugExpiration_ignores_expiry [OF world1_reachable, of "''b.example''" 200]
       a b stale world1_reachable
  show ?thesis by (simp add: time_Before_def)
qed

section \<open>Entries without an expiry\<close>

text \<open>
  C4, as the claim states it, fails: a local activation with a zero duration stores an
  expiry, namely the time of the activation, and one tick later the entry counts as
  expired.
\<close>

theorem zero_duration_stores_expiry:
  "Redis (opts world0) = None
   \<and> loggers (snd (AddDebugDomain env0 100 ''a.example'' 0 world0)) ''a.example'' =
       Some \<lparr>log = 5, expiredAt = Some 100\<rparr>
   \<and> DebugExpiration ''a.example'' (snd (AddDebugDomain env0 100 ''a.example'' 0 world0)) = Some 100
   \<and> Expired 101 \<lparr>log = 5, expiredAt = Some 100\<rparr>"
  by (simp add: AddDebugDomain_def world0_def addDebugDomain_loggers heap0_def DebugExpiration_def
      Expired_def time_Before_def)

text \<open>
  C4, amended. An entry whose expiry is nil is never treated as expired, but no such
  entry is ever created: every entry of a reachable world stores an expiry, and a local
  activation of a domain without entry stores the expiry \<open>now + ttl\<close>, which for a zero
  duration is the time of the activation.
\<close>

theorem nil_expiry_never_created:
  "\<not> Expired now \<lparr>log = lg, expiredAt = None\<rparr>
   \<and> (reachable w \<longrightarrow> (\<forall>d en. loggers w d = Some en \<longrightarrow> expiredAt en \<noteq> None))
   \<and> (Redis (opts w) = None \<and> loggers w D = None \<longrightarrow>
        DebugExpiration D (snd (AddDebugDomain e now D ttl w)) = Some (time_Add now ttl) \<and>
        DebugExpiration D (snd (AddDebugDomain e now D 0 w)) = Some now)"
proof -
  have "expiredAt en \<noteq> None" if "reachable w" "loggers w d = Some en" for d en
    using reachable_inv [OF that(1)] that(2) unfolding registry_inv_def by blast
  then show ?thesis
    by (auto simp: Expired_def AddDebugDomain_def DebugExpiration_def addDebugDomain_loggers
        time_Add_def)
qed

theorem nil_expiry_never_created_witness:
  "\<not> Expired 200 \<lparr>log = 5, expiredAt = None\<rparr>
   \<and> reachable world1
   \<and> loggers world1 ''a.example'' = Some \<lparr>log = 5, expiredAt = Some 150\<rparr>
   \<and> expiredAt \<lparr>log = 5, expiredAt = Some 150\<rparr> \<noteq> None
   \<and> Redis (opts world0) = None \<and> loggers world0 ''a.example'' = None
   \<and> DebugExpiration ''a.example'' (snd (AddDebugDomain env0 100 ''a.example'' 50 world0)) = Some 150
   \<and> DebugExpiration ''a.example'' (snd (AddDebugDomain env0 100 ''a.example'' 0 world0)) = Some 100"
proof -
  have local: "Redis (opts world0) = None"
    and absent: "loggers world0 ''a.example'' = None"
    by (simp_all add: world0_def)
  from nil_expiry_never_created [of 200 5 world1]
       nil_expiry_never_created [of 100 5 world0 "''a.example''" env0 50]
       local absent world1_reachable
  show ?thesis by (simp add: world1_loggers time_Add_def)
qed

section \<open>Facts about the string functions\<close>

lemma Duration_String_zero: "Duration_String 0 = ''0s''"
  by (simp add: Duration_String_def Second_def)

lemma Duration_String_5m: "Duration_String 300000000000 = ''5m0s''"
  by (simp add: Duration_String_def Second_def fmtFrac_def fmtInt_def digit_def Let_def)

lemma Split_from_nonempty: "Split_from c acc s \<noteq> []"
  by (induction s arbitrary: acc) auto

lemma Split_from_no_sep: "c \<notin> set xs \<Longrightarrow> Split_from c acc xs = [acc @ xs]"
  by (induction xs arbitrary: acc) auto

lemma Split_from_first:
  "c \<notin> set xs \<Longrightarrow> Split_from c acc (xs @ c # ys) = (acc @ xs) # Split_from c [] ys"
  by (induction xs arbitrary: acc) auto

lemma Split_two: "c \<notin> set D \<Longrightarrow> c \<notin> set seg \<Longrightarrow> Split (D @ c # seg) c = [D, seg]"
  by (simp add: Split_def Split_from_first Split_from_no_sep)

lemma world_dist_Redis: "Redis (opts (world_dist cli)) = Some cli"
  by (simp add: world_dist_def)

section \<open>The send path in distributed mode\<close>

text \<open>
  C5. \<open>publishDebug\<close> publishes first. When the publication fails, its error is returned
  and the publication is the only call made. When it succeeds, the second and last call
  writes the key \<open>debug:<domain>\<close> with the time-to-live (on the activation channel) or
  deletes it (otherwise), and the outcome of that call is returned: an error when it
  fails. In distributed mode \<open>AddDebugDomain\<close> and \<open>RemoveDebugDomain\<close> return what
  \<open>publishDebug\<close> returns and leave the local registry alone.
\<close>

theorem publishDebug_order:
  "(\<forall>err. on_Publish cli (calls cli) channel (D @ ''/'' @ Duration_String ttl) = Some err \<longrightarrow>
      fst (publishDebug cli channel D ttl) = Some err \<and>
      calls (snd (publishDebug cli channel D ttl)) =
        calls cli @ [CallPublish channel (D @ ''/'' @ Duration_String ttl)])
   \<and> (on_Publish cli (calls cli) channel (D @ ''/'' @ Duration_String ttl) = None \<longrightarrow>
        (channel = debugRedisAddChannel \<longrightarrow>
           calls (snd (publishDebug cli channel D ttl)) =
             calls cli @ [CallPublish channel (D @ ''/'' @ Duration_String ttl),
                          CallSet (''debug:'' @ D) 0 ttl] \<and>
           fst (publishDebug cli channel D ttl) =
             on_Set cli (calls cli @ [CallPublish channel (D @ ''/'' @ Duration_String ttl)])
               (''debug:'' @ D) 0 ttl) \<and>
        (channel \<noteq> debugRedisAddChannel \<longrightarrow>
           calls (snd (publishDebug cli channel D ttl)) =
             calls cli @ [CallPublish channel (D @ ''/'' @ Duration_String ttl),
                          CallDel (''debug:'' @ D)] \<and>
           fst (publishDebug cli channel D ttl) =
             on_Del cli (calls cli @ [CallPublish channel (D @ ''/'' @ Duration_String ttl)])
               (''debug:'' @ D)))
   \<and> (Redis (opts w) = Some cli \<longrightarrow>
        fst (AddDebugDomain e now D ttl w) = fst (publishDebug cli debugRedisAddChannel D ttl) \<and>
        Redis (opts (snd (AddDebugDomain e now D ttl w))) =
          Some (snd (publishDebug cli debugRedisAddChannel D ttl)) \<and>
        loggers (snd (AddDebugDomain e now D ttl w)) = loggers w \<and>
        fst (RemoveDebugDomain D w) = fst (publishDebug cli debugRedisRmvChannel D 0) \<and>
        Redis (opts (snd (RemoveDebugDomain D w))) =
          Some (snd (publishDebug cli debugRedisRmvChannel D 0)) \<and>
        loggers (snd (RemoveDebugDomain D w)) = loggers w)"
proof -
  let ?p = "D @ ''/'' @ Duration_String ttl"
  obtain r c1 where pub: "cli_Publish cli channel ?p = (r, c1)"
    by (cases "cli_Publish cli channel ?p")
  then have r: "r = on_Publish cli (calls cli) channel ?p"
    and c1: "calls c1 = calls cli @ [CallPublish channel ?p]"
    and s1: "on_Set c1 = on_Set cli" and d1: "on_Del c1 = on_Del cli"
    by (auto simp: cli_Publish_def)
  have fail: "fst (publishDebug cli channel D ttl) = Some err \<and>
              calls (snd (publishDebug cli channel D ttl)) = calls cli @ [CallPublish channel ?p]"
    if "on_Publish cli (calls cli) channel ?p = Some err" for err
    using that r c1 pub by (simp add: publishDebug_def)
  have ok_add: "calls (snd (publishDebug cli channel D ttl)) =
                  calls cli @ [CallPublish channel ?p, CallSet (''debug:'' @ D) 0 ttl] \<and>
                fst (publishDebug cli channel D ttl) =
                  on_Set cli (calls cli @ [CallPublish channel ?p]) (''debug:'' @ D) 0 ttl"
    if "on_Publish cli (calls cli) channel ?p = None" "channel = debugRedisAddChannel"
    using that r c1 s1 pub
    by (simp add: publishDebug_def cli_Set_def debugRedisPrefix_def Let_def)
  have ok_del: "calls (snd (publishDebug cli channel D ttl)) =
                  calls cli @ [CallPublish channel ?p, CallDel (''debug:'' @ D)] \<and>
                fst (publishDebug cli channel D ttl) =
                  on_Del cli (calls cli @ [CallPublish channel ?p]) (''debug:'' @ D)"
    if "on_Publish cli (calls cli) channel ?p = None" "channel \<noteq> debugRedisAddChannel"
    using that r c1 d1 pub
    by (simp add: publishDebug_def cli_Del_def debugRedisPrefix_def Let_def)
  have api: "fst (AddDebugDomain e now D ttl w) = fst (publishDebug cli debugRedisAddChannel D ttl) \<and>
        Redis (opts (snd (AddDebugDomain e now D ttl w))) =
          Some (snd (publishDebug cli debugRedisAddChannel D ttl)) \<and>
        loggers (snd (AddDebugDomain e now D ttl w)) = loggers w \<and>
        fst (RemoveDebugDomain D w) = fst (publishDebug cli debugRedisRmvChannel D 0) \<and>
        Redis (opts (snd (RemoveDebugDomain D w))) =
          Some (snd (publishDebug cli debugRedisRmvChannel D 0)) \<and>
        loggers (snd (RemoveDebugDomain D w)) = loggers w"
    if "Redis (opts w) = Some cli"
    using that by (simp add: AddDebugDomain_def RemoveDebugDomain_def split: prod.splits)
  from fail ok_add ok_del api show ?thesis by blast
qed

theorem publishDebug_order_witness:
  "on_Publish client_pubfail (calls client_pubfail) debugRedisAddChannel
      (''a.example'' @ ''/'' @ Duration_String 300000000000) = Some (Error ''connection refused'')
   \<and> fst (AddDebugDomain env0 100 ''a.example'' 300000000000 (world_dist client_pubfail)) =
       Some (Error ''connection refused'')
   \<and> map_option calls (Redis (opts (snd (AddDebugDomain env0 100 ''a.example'' 300000000000
         (world_dist client_pubfail))))) =
       Some [CallPublish ''add:log-debug'' ''a.example/5m0s'']
   \<and> on_Publish client_keyfail (calls client_keyfail) debugRedisAddChannel
      (''a.example'' @ ''/'' @ Duration_String 300000000000) = None
   \<and> fst (AddDebugDomain env0 100 ''a.example'' 300000000000 (world_dist client_keyfail)) =
       Some (Error ''READONLY'')
   \<and> map_option calls (Redis (opts (snd (AddDebugDomain env0 100 ''a.example'' 300000000000
         (world_dist client_keyfail))))) =
       Some [CallPublish ''add:log-debug'' ''a.example/5m0s'',
             CallSet ''debug:a.example'' 0 300000000000]
   \<and> debugRedisRmvChannel \<noteq> debugRedisAddChannel
   \<and> fst (RemoveDebugDomain ''a.example'' (world_dist client_keyfail)) = Some (Error ''READONLY'')
   \<and> map_option calls (Redis (opts (snd (RemoveDebugDomain ''a.example'' (world_dist client_keyfail))))) =
       Some [CallPublish ''rmv:log-debug'' ''a.example/0s'', CallDel ''debug:a.example'']
   \<and> fst (AddDebugDomain env0 100 ''a.example'' 300000000000 (world_dist client0)) = None"
proof -
  note inst1 = publishDebug_order [of client_pubfail debugRedisAddChannel "''a.example''"
      300000000000 "world_dist client_pubfail" env0 100]
  note inst2 = publishDebug_order [of client_keyfail debugRedisAddChannel "''a.example''"
      300000000000 "world_dist client_keyfail" env0 100]
  note inst3 = publishDebug_order [of client_keyfail debugRedisRmvChannel "''a.example''"
      0 "world_dist client_keyfail" env0 100]
  note inst4 = publishDebug_order [of client0 debugRedisAddChannel "''a.example''"
      300000000000 "world_dist client0" env0 100]
  have chans: "debugRedisRmvChannel \<noteq> debugRedisAddChannel"
    by (simp add: debugRedisRmvChannel_def debugRedisAddChannel_def)
  from inst1 inst2 inst3 inst4 chans show ?thesis
    by (simp add: world_dist_Redis Duration_String_zero Duration_String_5m client_pubfail_def
        client_keyfail_def client0_def debugRedisRmvChannel_def debugRedisAddChannel_def)
qed

section \<open>Message payloads\<close>

lemma publishDebug_calls:
  "\<exists>rest. calls (snd (publishDebug cli channel D ttl)) =
      calls cli @ CallPublish channel (D @ ''/'' @ Duration_String ttl) # rest"
  by (auto simp: publishDebug_def cli_Publish_def cli_Set_def cli_Del_def Let_def split: option.splits)

text \<open>
  C6, as the claim states it, fails for deactivation: \<open>RemoveDebugDomain\<close> passes the
  zero duration to \<open>publishDebug\<close>, which formats it like any other, so the payload ends
  in \<open>0s\<close> and its last segment is not empty.
\<close>

theorem deactivation_payload_zero_duration:
  "map_option calls (Redis (opts (snd (RemoveDebugDomain ''a.example'' (world_dist client0))))) =
     Some [CallPublish ''rmv:log-debug'' ''a.example/0s'', CallDel ''debug:a.example'']
   \<and> ''a.example/0s'' \<noteq> ''a.example/''"
  by (simp add: RemoveDebugDomain_def world_dist_def publishDebug_def cli_Publish_def cli_Del_def
      client0_def Duration_String_zero debugRedisRmvChannel_def debugRedisAddChannel_def
      debugRedisPrefix_def)

text \<open>
  C6, amended. In distributed mode, for every domain \<open>D\<close> and duration \<open>ttl\<close>, the first
  call of an activation publishes \<open><D>/<ttl as a duration string>\<close> on the activation
  channel, and the first call of a deactivation publishes \<open><D>/0s\<close> on the deactivation
  channel: the last segment is the string of the zero duration. A receiver does not use
  it: on that payload the round of the subscription loop removes \<open>D\<close>.
\<close>

theorem publish_payloads:
  assumes "Redis (opts w) = Some cli"
  shows "(\<exists>cli' rest. Redis (opts (snd (AddDebugDomain e now D ttl w))) = Some cli' \<and>
            calls cli' = calls cli @
              CallPublish debugRedisAddChannel (D @ ''/'' @ Duration_String ttl) # rest)
       \<and> (\<exists>cli' rest. Redis (opts (snd (RemoveDebugDomain D w))) = Some cli' \<and>
            calls cli' = calls cli @ CallPublish debugRedisRmvChannel (D @ ''/0s'') # rest)
       \<and> (CHR ''/'' \<notin> set D \<longrightarrow>
            handleMessage e now \<lparr>Channel = debugRedisRmvChannel, Payload = D @ ''/0s''\<rparr> w =
              Inr (removeDebugDomain D w))"
proof -
  obtain r1 where r1: "calls (snd (publishDebug cli debugRedisAddChannel D ttl)) =
      calls cli @ CallPublish debugRedisAddChannel (D @ ''/'' @ Duration_String ttl) # r1"
    using publishDebug_calls by blast
  obtain r2 where r2: "calls (snd (publishDebug cli debugRedisRmvChannel D 0)) =
      calls cli @ CallPublish debugRedisRmvChannel (D @ ''/'' @ Duration_String 0) # r2"
    using publishDebug_calls by blast
  have a: "Redis (opts (snd (AddDebugDomain e now D ttl w))) =
             Some (snd (publishDebug cli debugRedisAddChannel D ttl))"
    using assms by (simp add: AddDebugDomain_def split: prod.splits)
  have b: "Redis (opts (snd (RemoveDebugDomain D w))) =
             Some (snd (publishDebug cli debugRedisRmvChannel D 0))"
    using assms by (simp add: RemoveDebugDomain_def split: prod.splits)
  have c: "handleMessage e now \<lparr>Channel = debugRedisRmvChannel, Payload = D @ ''/0s''\<rparr> w =
              Inr (removeDebugDomain D w)" if "CHR ''/'' \<notin> set D"
  proof -
    have "CHR ''/'' \<notin> set ''0s''" by simp
    from Split_two [OF that this]
    show ?thesis
      by (simp add: handleMessage_def debugRedisRmvChannel_def debugRedisAddChannel_def)
  qed
  from a r1 b r2 c show ?thesis
    by (simp add: Duration_String_zero)
qed

theorem publish_payloads_witness:
  "Redis (opts (world_dist client0)) = Some client0
   \<and> map_option calls (Redis (opts (snd (AddDebugDomain env0 100 ''a.example'' 300000000000
         (world_dist client0))))) =
       Some [CallPublish ''add:log-debug'' ''a.example/5m0s'',
             CallSet ''debug:a.example'' 0 300000000000]
   \<and> map_option calls (Redis (opts (snd (RemoveDebugDomain ''a.example'' (world_dist client0))))) =
       Some [CallPublish ''rmv:log-debug'' ''a.example/0s'', CallDel ''debug:a.example'']
   \<and> CHR ''/'' \<notin> set ''a.example''
   \<and> handleMessage env0 200 \<lparr>Channel = ''rmv:log-debug'', Payload = ''a.example/0s''\<rparr>
         (world_dist client0) =
       Inr (removeDebugDomain ''a.example'' (world_dist client0))"
proof -
  have eval: "map_option calls (Redis (opts (snd (AddDebugDomain env0 100 ''a.example'' 300000000000
         (world_dist client0))))) =
       Some [CallPublish ''add:log-debug'' ''a.example/5m0s'',
             CallSet ''debug:a.example'' 0 300000000000]"
    "map_option calls (Redis (opts (snd (RemoveDebugDomain ''a.example'' (world_dist client0))))) =
       Some [CallPublish ''rmv:log-debug'' ''a.example/0s'', CallDel ''debug:a.example'']"
    by (simp_all add: AddDebugDomain_def RemoveDebugDomain_def world_dist_def publishDebug_def
      cli_Publish_def cli_Del_def cli_Set_def
      client0_def Duration_String_zero Duration_String_5m debugRedisRmvChannel_def
      debugRedisAddChannel_def debugRedisPrefix_def)
  have noslash: "CHR ''/'' \<notin> set ''a.example''" by simp
  from publish_payloads [where w = "world_dist client0" and cli = client0 and e = env0
         and now = 200 and D = "''a.example''" and ttl = 300000000000, OF world_dist_Redis]
       eval noslash
  show ?thesis
    by (simp add: world_dist_Redis debugRedisRmvChannel_def)
qed

section \<open>Handling received messages\<close>

lemma handleMessage_total: "\<exists>w'. handleMessage e now msg w = Inr w'"
  by (simp add: handleMessage_def Let_def split: list.splits)
    (simp add: Split_def Split_from_nonempty)

lemma subscribeLoggersDebug_total: "\<exists>w'. subscribeLoggersDebug e msgs w = Inr w'"
proof (induction msgs arbitrary: w)
  case Nil
  then show ?case by simp
next
  case (Cons m msgs)
  obtain now msg where m: "m = (now, msg)" by (cases m)
  obtain w1 where "handleMessage e now msg w = Inr w1"
    using handleMessage_total by blast
  with Cons [of w1] m show ?case by simp
qed

lemma subscribeLoggersDebug_append:
  "subscribeLoggersDebug e (ms1 @ ms2) w =
     (case subscribeLoggersDebug e ms1 w of
        Inl p \<Rightarrow> Inl p
      | Inr w1 \<Rightarrow> subscribeLoggersDebug e ms2 w1)"
  by (induction ms1 arbitrary: w) (auto split: sum.splits)

text \<open>
  C7. Let \<open>time.ParseDuration\<close> return the zero duration together with every error, as
  the standard library does. One round of the subscription loop splits the payload at
  \<open>/\<close>; the first part is the domain. On the activation channel the round is
  \<open>addDebugDomain\<close> for that domain with the parsed second part as duration (zero when
  there is no second part, and zero when the second part does not parse): afterwards the
  registry holds an entry for the domain, with expiry \<open>now + ttl\<close> when there was none
  before and with the world unchanged when there was one, and the entries of the other
  domains are as before. On the deactivation channel the round is \<open>removeDebugDomain\<close>
  for that domain: afterwards the registry holds no entry for the domain,
  \<open>DebugExpiration\<close> reports nil for it, and the other entries, the object store and
  the options are as before. A message on any other channel changes nothing. No round
  fails, whatever the payload. The loop applies the rounds in the order of the messages:
  on no message it returns the world, on one message it is that round, on a first message
  followed by others it is that round followed by the loop over the others, and on a
  list ending with a message it is the loop over the list followed by that round; over
  any list of messages it ends in a world. A payload \<open>D/seg\<close> without further \<open>/\<close>
  splits into exactly \<open>D\<close> and \<open>seg\<close>.
\<close>

theorem handleMessage_cases:
  assumes contract: "\<forall>s. snd (ParseDuration e s) \<noteq> None \<longrightarrow> fst (ParseDuration e s) = 0"
  shows "(\<exists>domain rest. Split (Payload msg) CHR ''/'' = domain # rest \<and>
            (Channel msg = debugRedisAddChannel \<longrightarrow>
               handleMessage e now msg w =
                 Inr (addDebugDomain e now domain
                        (case rest of [] \<Rightarrow> 0 | seg # _ \<Rightarrow> fst (ParseDuration e seg)) w) \<and>
               (loggers w domain = None \<longrightarrow>
                  DebugExpiration domain
                    (addDebugDomain e now domain
                        (case rest of [] \<Rightarrow> 0 | seg # _ \<Rightarrow> fst (ParseDuration e seg)) w) =
                    Some (time_Add now (case rest of [] \<Rightarrow> 0 | seg # _ \<Rightarrow> fst (ParseDuration e seg)))) \<and>
               (\<forall>seg more. rest = seg # more \<and> snd (ParseDuration e seg) \<noteq> None \<longrightarrow>
                  handleMessage e now msg w = Inr (addDebugDomain e now domain 0 w)) \<and>
               (\<exists>w1. handleMessage e now msg w = Inr w1 \<and>
                  (\<exists>en. loggers w1 domain = Some en) \<and>
                  (loggers w domain = None \<longrightarrow>
                     (\<exists>lg. loggers w1 domain =
                        Some \<lparr>log = lg, expiredAt = Some (time_Add now
                          (case rest of [] \<Rightarrow> 0 | seg # _ \<Rightarrow> fst (ParseDuration e seg)))\<rparr>)) \<and>
                  (\<forall>en. loggers w domain = Some en \<longrightarrow> w1 = w) \<and>
                  (\<forall>d. d \<noteq> domain \<longrightarrow> loggers w1 d = loggers w d))) \<and>
            (Channel msg = debugRedisRmvChannel \<longrightarrow>
               handleMessage e now msg w = Inr (removeDebugDomain domain w) \<and>
               (\<exists>w1. handleMessage e now msg w = Inr w1 \<and>
                  loggers w1 domain = None \<and>
                  DebugExpiration domain w1 = None \<and>
                  (\<forall>d. d \<noteq> domain \<longrightarrow> loggers w1 d = loggers w d) \<and>
                  heap w1 = heap w \<and> opts w1 = opts w \<and> std w1 = std w)) \<and>
            (Channel msg \<noteq> debugRedisAddChannel \<and> Channel msg \<noteq> debugRedisRmvChannel \<longrightarrow>
               handleMessage e now msg w = Inr w))
       \<and> (\<exists>w'. subscribeLoggersDebug e msgs w = Inr w')
       \<and> subscribeLoggersDebug e [] w = Inr w
       \<and> subscribeLoggersDebug e [(now, msg)] w = handleMessage e now msg w
       \<and> (\<exists>w1. handleMessage e now msg w = Inr w1 \<and>
             subscribeLoggersDebug e ((now, msg) # msgs) w = subscribeLoggersDebug e msgs w1)
       \<and> (\<exists>w1. subscribeLoggersDebug e msgs w = Inr w1 \<and>
             subscribeLoggersDebug e (msgs @ [(now, msg)]) w = handleMessage e now msg w1)
       \<and> (CHR ''/'' \<notin> set D \<and> CHR ''/'' \<notin> set seg' \<longrightarrow>
            Split (D @ ''/'' @ seg') CHR ''/'' = [D, seg'])"
proof -
  obtain domain rest where parts: "Split (Payload msg) CHR ''/'' = domain # rest"
    using Split_from_nonempty [of "CHR ''/''" "[]" "Payload msg"]
    by (cases "Split (Payload msg) CHR ''/''") (simp_all add: Split_def)
  let ?ttl = "case rest of [] \<Rightarrow> 0 | seg # _ \<Rightarrow> fst (ParseDuration e seg)"
  let ?wa = "addDebugDomain e now domain ?ttl w"
  let ?wr = "removeDebugDomain domain w"
  have add: "handleMessage e now msg w = Inr ?wa"
    if "Channel msg = debugRedisAddChannel"
    using that parts by (cases rest) (simp_all add: handleMessage_def)
  have expiry: "DebugExpiration domain ?wa = Some (time_Add now ?ttl)"
    if "loggers w domain = None"
    using that by (simp add: DebugExpiration_def addDebugDomain_loggers time_Add_def)
  have bad: "handleMessage e now msg w = Inr (addDebugDomain e now domain 0 w)"
    if "Channel msg = debugRedisAddChannel" "rest = seg # more" "snd (ParseDuration e seg) \<noteq> None"
    for seg more
    using that contract add by simp
  have a1: "\<exists>en. loggers ?wa domain = Some en"
    by (rule addDebugDomain_registers)
  have a2: "\<exists>lg. loggers ?wa domain = Some \<lparr>log = lg, expiredAt = Some (time_Add now ?ttl)\<rparr>"
    if "loggers w domain = None"
    using that by (simp add: addDebugDomain_loggers time_Add_def)
  have a3: "?wa = w" if "loggers w domain = Some en" for en
    using that by (rule addDebugDomain_present)
  have a4: "loggers ?wa d = loggers w d" if "d \<noteq> domain" for d
    using that by (rule addDebugDomain_other)
  have add_effect: "\<exists>w1. handleMessage e now msg w = Inr w1 \<and>
                  (\<exists>en. loggers w1 domain = Some en) \<and>
                  (loggers w domain = None \<longrightarrow>
                     (\<exists>lg. loggers w1 domain =
                        Some \<lparr>log = lg, expiredAt = Some (time_Add now ?ttl)\<rparr>)) \<and>
                  (\<forall>en. loggers w domain = Some en \<longrightarrow> w1 = w) \<and>
                  (\<forall>d. d \<noteq> domain \<longrightarrow> loggers w1 d = loggers w d)"
    if "Channel msg = debugRedisAddChannel"
    apply (rule exI [of _ ?wa])
    using add [OF that] a1 a2 a3 a4 apply blast
    done
  have rmv: "handleMessage e now msg w = Inr ?wr"
    if "Channel msg = debugRedisRmvChannel"
    using that parts
    by (simp add: handleMessage_def debugRedisRmvChannel_def debugRedisAddChannel_def)
  have rmv_effect: "\<exists>w1. handleMessage e now msg w = Inr w1 \<and>
                  loggers w1 domain = None \<and>
                  DebugExpiration domain w1 = None \<and>
                  (\<forall>d. d \<noteq> domain \<longrightarrow> loggers w1 d = loggers w d) \<and>
                  heap w1 = heap w \<and> opts w1 = opts w \<and> std w1 = std w"
    if "Channel msg = debugRedisRmvChannel"
    apply (rule exI [of _ ?wr])
    using rmv [OF that] apply (simp add: removeDebugDomain_def DebugExpiration_def)
    done
  have other: "handleMessage e now msg w = Inr w"
    if "Channel msg \<noteq> debugRedisAddChannel \<and> Channel msg \<noteq> debugRedisRmvChannel"
    using that parts by (simp add: handleMessage_def)
  have first: "\<exists>domain rest. Split (Payload msg) CHR ''/'' = domain # rest \<and>
            (Channel msg = debugRedisAddChannel \<longrightarrow>
               handleMessage e now msg w =
                 Inr (addDebugDomain e now domain
                        (case rest of [] \<Rightarrow> 0 | seg # _ \<Rightarrow> fst (ParseDuration e seg)) w) \<and>
               (loggers w domain = None \<longrightarrow>
                  DebugExpiration domain
                    (addDebugDomain e now domain
                        (case rest of [] \<Rightarrow> 0 | seg # _ \<Rightarrow> fst (ParseDuration e seg)) w) =
                    Some (time_Add now (case rest of [] \<Rightarrow> 0 | seg # _ \<Rightarrow> fst (ParseDuration e seg)))) \<and>
               (\<forall>seg more. rest = seg # more \<and> snd (ParseDuration e seg) \<noteq> None \<longrightarrow>
                  handleMessage e now msg w = Inr (addDebugDomain e now domain 0 w)) \<and>
               (\<exists>w1. handleMessage e now msg w = Inr w1 \<and>
                  (\<exists>en. loggers w1 domain = Some en) \<and>
                  (loggers w domain = None \<longrightarrow>
                     (\<exists>lg. loggers w1 domain =
                        Some \<lparr>log = lg, expiredAt = Some (time_Add now
                          (case rest of [] \<Rightarrow> 0 | seg # _ \<Rightarrow> fst (ParseDuration e seg)))\<rparr>)) \<and>
                  (\<forall>en. loggers w domain = Some en \<longrightarrow> w1 = w) \<and>
                  (\<forall>d. d \<noteq> domain \<longrightarrow> loggers w1 d = loggers w d))) \<and>
            (Channel msg = debugRedisRmvChannel \<longrightarrow>
               handleMessage e now msg w = Inr (removeDebugDomain domain w) \<and>
               (\<exists>w1. handleMessage e now msg w = Inr w1 \<and>
                  loggers w1 domain = None \<and>
                  DebugExpiration domain w1 = None \<and>
                  (\<forall>d. d \<noteq> domain \<longrightarrow> loggers w1 d = loggers w d) \<and>
                  heap w1 = heap w \<and> opts w1 = opts w \<and> std w1 = std w)) \<and>
            (Channel msg \<noteq> debugRedisAddChannel \<and> Channel msg \<noteq> debugRedisRmvChannel \<longrightarrow>
               handleMessage e now msg w = Inr w)"
    apply (rule exI [of _ domain])
    apply (rule exI [of _ rest])
    using parts add expiry bad add_effect rmv rmv_effect other apply blast
    done
  have nil: "subscribeLoggersDebug e [] w = Inr w" by simp
  have one: "subscribeLoggersDebug e [(now, msg)] w = handleMessage e now msg w"
    by (simp split: sum.splits)
  obtain wh where wh: "handleMessage e now msg w = Inr wh"
    using handleMessage_total by blast
  have step: "\<exists>w1. handleMessage e now msg w = Inr w1 \<and>
             subscribeLoggersDebug e ((now, msg) # msgs) w = subscribeLoggersDebug e msgs w1"
    using wh by simp
  obtain wl where wl: "subscribeLoggersDebug e msgs w = Inr wl"
    using subscribeLoggersDebug_total by blast
  have "subscribeLoggersDebug e [(now, msg)] wl = handleMessage e now msg wl"
    by (simp split: sum.splits)
  then have last: "\<exists>w1. subscribeLoggersDebug e msgs w = Inr w1 \<and>
             subscribeLoggersDebug e (msgs @ [(now, msg)]) w = handleMessage e now msg w1"
    using wl by (simp add: subscribeLoggersDebug_append del: subscribeLoggersDebug.simps)
  have split2: "Split (D @ ''/'' @ seg') CHR ''/'' = [D, seg']"
    if "CHR ''/'' \<notin> set D \<and> CHR ''/'' \<notin> set seg'"
    using that Split_two [of "CHR ''/''" D seg'] by simp
  from first subscribeLoggersDebug_total [of e msgs w] nil one step last split2
  show ?thesis by blast
qed


lemma Split_example1: "Split ''a.example/5m0s'' CHR ''/'' = [''a.example'', ''5m0s'']"
  using Split_two [of "CHR ''/''" "''a.example''" "''5m0s''"] by simp

lemma Split_example2: "Split ''a.example/soon'' CHR ''/'' = [''a.example'', ''soon'']"
  using Split_two [of "CHR ''/''" "''a.example''" "''soon''"] by simp

lemma Split_example3: "Split ''a.example/0s'' CHR ''/'' = [''a.example'', ''0s'']"
  using Split_two [of "CHR ''/''" "''a.example''" "''0s''"] by simp

lemma env0_contract: "\<forall>s. snd (ParseDuration env0 s) \<noteq> None \<longrightarrow> fst (ParseDuration env0 s) = 0"
  by (simp add: env0_def parse0_def)

theorem handleMessage_cases_witness:
  "snd (ParseDuration env0 ''soon'') \<noteq> None \<and> fst (ParseDuration env0 ''soon'') = 0
   \<and> loggers world0 ''a.example'' = None
   \<and> handleMessage env0 100 \<lparr>Channel = ''add:log-debug'', Payload = ''a.example/5m0s''\<rparr> world0 =
       Inr (addDebugDomain env0 100 ''a.example'' 300000000000 world0)
   \<and> DebugExpiration ''a.example'' (addDebugDomain env0 100 ''a.example'' 300000000000 world0) =
       Some 300000000100
   \<and> handleMessage env0 100 \<lparr>Channel = ''add:log-debug'', Payload = ''a.example/soon''\<rparr> world0 =
       Inr (addDebugDomain env0 100 ''a.example'' 0 world0)
   \<and> handleMessage env0 200 \<lparr>Channel = ''rmv:log-debug'', Payload = ''a.example/0s''\<rparr> world1 =
       Inr (removeDebugDomain ''a.example'' world1)
   \<and> loggers world1 ''a.example'' = Some \<lparr>log = 5, expiredAt = Some 150\<rparr>
   \<and> (\<exists>w1. handleMessage env0 200 \<lparr>Channel = ''rmv:log-debug'', Payload = ''a.example/0s''\<rparr> world1 =
              Inr w1 \<and>
            loggers w1 ''a.example'' = None \<and> DebugExpiration ''a.example'' w1 = None)
   \<and> handleMessage env0 200 \<lparr>Channel = ''add:log-debug'', Payload = ''a.example/5m0s''\<rparr> world1 =
       Inr world1
   \<and> handleMessage env0 200 \<lparr>Channel = ''other'', Payload = ''a.example/5m0s''\<rparr> world1 =
       Inr world1
   \<and> (\<exists>w'. subscribeLoggersDebug env0
          [(100, \<lparr>Channel = ''add:log-debug'', Payload = ''a.example/5m0s''\<rparr>)] world0 = Inr w' \<and>
          DebugExpiration ''a.example'' w' = Some 300000000100)
   \<and> (\<exists>w'. subscribeLoggersDebug env0
          [(100, \<lparr>Channel = ''add:log-debug'', Payload = ''a.example/soon''\<rparr>),
           (200, \<lparr>Channel = ''rmv:log-debug'', Payload = ''a.example/0s''\<rparr>)] world0 = Inr w' \<and>
          loggers w' ''a.example'' = None)
   \<and> Split ''a.example/5m0s'' CHR ''/'' = [''a.example'', ''5m0s'']"
proof -
  let ?add5 = "\<lparr>Channel = ''add:log-debug'', Payload = ''a.example/5m0s''\<rparr>"
  let ?addbad = "\<lparr>Channel = ''add:log-debug'', Payload = ''a.example/soon''\<rparr>"
  let ?rmv = "\<lparr>Channel = ''rmv:log-debug'', Payload = ''a.example/0s''\<rparr>"
  let ?other = "\<lparr>Channel = ''other'', Payload = ''a.example/5m0s''\<rparr>"
  let ?wbad = "addDebugDomain env0 100 ''a.example'' 0 world0"
  note ev = Split_example1 Split_example2 Split_example3 debugRedisAddChannel_def
    debugRedisRmvChannel_def time_Add_def
  have absent: "loggers world0 ''a.example'' = None" by (simp add: world0_def)
  have present: "loggers world1 ''a.example'' = Some \<lparr>log = 5, expiredAt = Some 150\<rparr>"
    by (simp add: world1_loggers)
  have p: "snd (ParseDuration env0 ''soon'') \<noteq> None" "fst (ParseDuration env0 ''soon'') = 0"
    "fst (ParseDuration env0 ''5m0s'') = 300000000000"
    by (simp_all add: env0_def parse0_def)
  note i1 = handleMessage_cases [OF env0_contract, of ?add5 100 world0 "[]" "''a.example''" "''5m0s''"]
  note i2 = handleMessage_cases [OF env0_contract, of ?addbad 100 world0 "[(200, ?rmv)]"
      "''a.example''" "''soon''"]
  note i3 = handleMessage_cases [OF env0_contract, of ?rmv 200 world1 "[]" "''a.example''" "''0s''"]
  note i4 = handleMessage_cases [OF env0_contract, of ?rmv 200 ?wbad "[]" "''a.example''" "''0s''"]
  note i5 = handleMessage_cases [OF env0_contract, of ?add5 200 world1 "[]" "''a.example''" "''5m0s''"]
  note i6 = handleMessage_cases [OF env0_contract, of ?other 200 world1 "[]" "''a.example''" "''5m0s''"]
  have c1: "handleMessage env0 100 ?add5 world0 =
              Inr (addDebugDomain env0 100 ''a.example'' 300000000000 world0)"
    and c2: "DebugExpiration ''a.example'' (addDebugDomain env0 100 ''a.example'' 300000000000 world0) =
              Some 300000000100"
    and c3: "subscribeLoggersDebug env0 [(100, ?add5)] world0 = handleMessage env0 100 ?add5 world0"
    using i1 absent p by (simp_all add: ev del: subscribeLoggersDebug.simps)
  have c4: "handleMessage env0 100 ?addbad world0 = Inr ?wbad"
    using i2 absent p by (simp add: ev del: subscribeLoggersDebug.simps)
  from i2 obtain w1 where "handleMessage env0 100 ?addbad world0 = Inr w1"
    and "subscribeLoggersDebug env0 [(100, ?addbad), (200, ?rmv)] world0 =
           subscribeLoggersDebug env0 [(200, ?rmv)] w1"
    by blast
  with c4 have c5: "subscribeLoggersDebug env0 [(100, ?addbad), (200, ?rmv)] world0 =
               subscribeLoggersDebug env0 [(200, ?rmv)] ?wbad"
    by (simp del: subscribeLoggersDebug.simps)
  have c6: "handleMessage env0 200 ?rmv world1 = Inr (removeDebugDomain ''a.example'' world1)"
    and c7: "\<exists>w1. handleMessage env0 200 ?rmv world1 = Inr w1 \<and>
            loggers w1 ''a.example'' = None \<and> DebugExpiration ''a.example'' w1 = None"
    using i3 by (auto simp: ev simp del: subscribeLoggersDebug.simps)
  have c8: "subscribeLoggersDebug env0 [(200, ?rmv)] ?wbad = handleMessage env0 200 ?rmv ?wbad"
    and c9: "\<exists>w1. handleMessage env0 200 ?rmv ?wbad = Inr w1 \<and> loggers w1 ''a.example'' = None"
    using i4 by (auto simp: ev simp del: subscribeLoggersDebug.simps)
  have c10: "handleMessage env0 200 ?add5 world1 = Inr world1"
    using i5 present by (auto simp: ev simp del: subscribeLoggersDebug.simps)
  have c11: "handleMessage env0 200 ?other world1 = Inr world1"
    using i6 by (auto simp: ev simp del: subscribeLoggersDebug.simps)
  have l1: "\<exists>w'. subscribeLoggersDebug env0 [(100, ?add5)] world0 = Inr w' \<and>
          DebugExpiration ''a.example'' w' = Some 300000000100"
    unfolding c3 c1 using c2 by simp
  have l2: "\<exists>w'. subscribeLoggersDebug env0 [(100, ?addbad), (200, ?rmv)] world0 = Inr w' \<and>
          loggers w' ''a.example'' = None"
    unfolding c5 c8 using c9 by simp
  from p(1,2) absent c1 c2 c4 c6 present c7 c10 c11 l1 l2 Split_example1
  show ?thesis by (simp del: subscribeLoggersDebug.simps)
qed

section \<open>Bootstrap from the durable store\<close>

lemma loadDebug_keys_calls:
  "calls (fst (loadDebug_keys e clock i ks (cli, w))) = calls cli @ map CallTTL ks"
  by (induction ks arbitrary: i cli w) (auto simp: cli_TTL_def Let_def split: sum.splits)

lemma loadDebug_keys_keeps:
  "loggers w d = Some en \<Longrightarrow> loggers (snd (loadDebug_keys e clock i ks (cli, w))) d = Some en"
  by (induction ks arbitrary: i cli w)
    (auto simp: cli_TTL_def Let_def addDebugDomain_keeps split: sum.splits)

lemma loadDebug_keys_absent:
  assumes "loggers w d = None"
    and "\<forall>j<length ks. \<forall>t. on_TTL cli (calls cli @ map CallTTL (take j ks)) (ks ! j) = Inr t \<longrightarrow>
           TrimPrefix (ks ! j) debugRedisPrefix \<noteq> d"
  shows "loggers (snd (loadDebug_keys e clock i ks (cli, w))) d = None"
  using assms
proof (induction ks arbitrary: i cli w)
  case Nil
  then show ?case by simp
next
  case (Cons k ks)
  let ?cli1 = "cli\<lparr>calls := calls cli @ [CallTTL k]\<rparr>"
  have later: "\<forall>j<length ks. \<forall>t.
      on_TTL ?cli1 (calls ?cli1 @ map CallTTL (take j ks)) (ks ! j) = Inr t \<longrightarrow>
      TrimPrefix (ks ! j) debugRedisPrefix \<noteq> d"
  proof (intro allI impI)
    fix j t
    assume "j < length ks"
      and "on_TTL ?cli1 (calls ?cli1 @ map CallTTL (take j ks)) (ks ! j) = Inr t"
    with Cons.prems(2) [rule_format, of "Suc j" t]
    show "TrimPrefix (ks ! j) debugRedisPrefix \<noteq> d" by simp
  qed
  show ?case
  proof (cases "on_TTL cli (calls cli) k")
    case (Inl err)
    with Cons.IH [OF Cons.prems(1) later] show ?thesis
      by (simp add: cli_TTL_def)
  next
    case (Inr t)
    with Cons.prems(2) [rule_format, of 0 t]
    have "TrimPrefix k debugRedisPrefix \<noteq> d" by simp
    then have "loggers (addDebugDomain e (clock i) (TrimPrefix k debugRedisPrefix) t w) d = None"
      using Cons.prems(1) by (simp add: addDebugDomain_other)
    from Cons.IH [OF this later] Inr show ?thesis
      by (simp add: cli_TTL_def Let_def)
  qed
qed

lemma loadDebug_keys_registers:
  assumes "j < length ks"
    and "on_TTL cli (calls cli @ map CallTTL (take j ks)) (ks ! j) = Inr ttl"
    and "loggers w (TrimPrefix (ks ! j) debugRedisPrefix) = None"
    and "\<forall>j'<j. \<forall>t. on_TTL cli (calls cli @ map CallTTL (take j' ks)) (ks ! j') = Inr t \<longrightarrow>
           TrimPrefix (ks ! j') debugRedisPrefix \<noteq> TrimPrefix (ks ! j) debugRedisPrefix"
  shows "\<exists>lg. loggers (snd (loadDebug_keys e clock i ks (cli, w)))
                (TrimPrefix (ks ! j) debugRedisPrefix) =
              Some \<lparr>log = lg, expiredAt = Some (clock (i + j) + ttl)\<rparr>"
  using assms
proof (induction ks arbitrary: i j cli w)
  case Nil
  then show ?case by simp
next
  case (Cons k ks)
  let ?cli1 = "cli\<lparr>calls := calls cli @ [CallTTL k]\<rparr>"
  show ?case
  proof (cases j)
    case 0
    let ?d = "TrimPrefix k debugRedisPrefix"
    from 0 Cons.prems have ok: "on_TTL cli (calls cli) k = Inr ttl" and none: "loggers w ?d = None"
      by simp_all
    let ?w1 = "addDebugDomain e (clock i) ?d ttl w"
    have "loggers ?w1 ?d = Some \<lparr>log = nextRef (heap w) + 2, expiredAt = Some (clock i + ttl)\<rparr>"
      using none by (simp add: addDebugDomain_loggers)
    from loadDebug_keys_keeps [OF this, of e clock "Suc i" ks ?cli1] ok 0
    show ?thesis by (auto simp: cli_TTL_def Let_def)
  next
    case (Suc j')
    let ?d = "TrimPrefix (ks ! j') debugRedisPrefix"
    from Suc Cons.prems(1) have len: "j' < length ks" by simp
    from Suc Cons.prems(2)
    have ok: "on_TTL ?cli1 (calls ?cli1 @ map CallTTL (take j' ks)) (ks ! j') = Inr ttl"
      by simp
    from Suc Cons.prems(3) have none: "loggers w ?d = None" by simp
    have earlier: "\<forall>i'<j'. \<forall>t.
        on_TTL ?cli1 (calls ?cli1 @ map CallTTL (take i' ks)) (ks ! i') = Inr t \<longrightarrow>
        TrimPrefix (ks ! i') debugRedisPrefix \<noteq> ?d"
    proof (intro allI impI)
      fix i' t
      assume "i' < j'"
        and "on_TTL ?cli1 (calls ?cli1 @ map CallTTL (take i' ks)) (ks ! i') = Inr t"
      with Cons.prems(4) [rule_format, of "Suc i'" t] Suc
      show "TrimPrefix (ks ! i') debugRedisPrefix \<noteq> ?d" by simp
    qed
    show ?thesis
    proof (cases "on_TTL cli (calls cli) k")
      case (Inl err)
      from Cons.IH [OF len ok none earlier, of "Suc i"] Inl Suc
      show ?thesis by (simp add: cli_TTL_def)
    next
      case (Inr t)
      with Cons.prems(4) [rule_format, of 0 t] Suc
      have "TrimPrefix k debugRedisPrefix \<noteq> ?d" by simp
      then have "loggers (addDebugDomain e (clock i) (TrimPrefix k debugRedisPrefix) t w) ?d = None"
        using none by (simp add: addDebugDomain_other)
      from Cons.IH [OF len ok this earlier, of "Suc i"] Inr Suc
      show ?thesis by (simp add: cli_TTL_def Let_def)
    qed
  qed
qed


text \<open>
  C8. \<open>loadDebug\<close> first lists the keys matching \<open>debug:*\<close>. When the listing fails,
  nothing else happens: no further call is made, the world is unchanged, and no error is
  returned (the function returns none). When the listing succeeds with the keys \<open>ks\<close>,
  the time-to-live of every key is queried, in order, whatever the outcome of the
  earlier queries. For a key at position \<open>j\<close> whose query succeeds with \<open>ttl\<close>, the
  domain obtained by removing the prefix \<open>debug:\<close> is registered with expiry
  \<open>clock j + ttl\<close>, provided the registry had no entry for it and no earlier key with a
  successful query names the same domain (the first registration wins). Entries present
  before are kept, and a domain that no successfully queried key names gets no entry.
\<close>

theorem loadDebug_cases:
  "(\<forall>err. on_Keys cli (calls cli) ''debug:*'' = Inl err \<longrightarrow>
      loadDebug e clock cli w = (cli\<lparr>calls := calls cli @ [CallKeys ''debug:*'']\<rparr>, w))
   \<and> (\<forall>ks. on_Keys cli (calls cli) ''debug:*'' = Inr ks \<longrightarrow>
        calls (fst (loadDebug e clock cli w)) = calls cli @ CallKeys ''debug:*'' # map CallTTL ks \<and>
        (\<forall>j ttl.
           j < length ks \<and>
           on_TTL cli (calls cli @ CallKeys ''debug:*'' # map CallTTL (take j ks)) (ks ! j) = Inr ttl \<and>
           loggers w (TrimPrefix (ks ! j) ''debug:'') = None \<and>
           (\<forall>j'<j. \<forall>t.
              on_TTL cli (calls cli @ CallKeys ''debug:*'' # map CallTTL (take j' ks)) (ks ! j') = Inr t \<longrightarrow>
              TrimPrefix (ks ! j') ''debug:'' \<noteq> TrimPrefix (ks ! j) ''debug:'') \<longrightarrow>
           (\<exists>lg. loggers (snd (loadDebug e clock cli w)) (TrimPrefix (ks ! j) ''debug:'') =
                   Some \<lparr>log = lg, expiredAt = Some (time_Add (clock j) ttl)\<rparr>)) \<and>
        (\<forall>d en. loggers w d = Some en \<longrightarrow> loggers (snd (loadDebug e clock cli w)) d = Some en) \<and>
        (\<forall>d. loggers w d = None \<and>
           (\<forall>j<length ks. \<forall>t.
              on_TTL cli (calls cli @ CallKeys ''debug:*'' # map CallTTL (take j ks)) (ks ! j) = Inr t \<longrightarrow>
              TrimPrefix (ks ! j) ''debug:'' \<noteq> d) \<longrightarrow>
           loggers (snd (loadDebug e clock cli w)) d = None))"
proof -
  let ?cli1 = "cli\<lparr>calls := calls cli @ [CallKeys ''debug:*'']\<rparr>"
  have hist: "calls ?cli1 @ xs = calls cli @ CallKeys ''debug:*'' # xs" for xs
    by simp
  have ttl1: "on_TTL ?cli1 = on_TTL cli" by simp
  have fail: "loadDebug e clock cli w = (?cli1, w)"
    if "on_Keys cli (calls cli) ''debug:*'' = Inl err" for err
    using that by (simp add: loadDebug_def cli_Keys_def debugRedisPrefix_def)
  have run: "loadDebug e clock cli w = loadDebug_keys e clock 0 ks (?cli1, w)"
    if "on_Keys cli (calls cli) ''debug:*'' = Inr ks" for ks
    using that by (simp add: loadDebug_def cli_Keys_def debugRedisPrefix_def)
  have queried: "calls (fst (loadDebug e clock cli w)) =
                   calls cli @ CallKeys ''debug:*'' # map CallTTL ks"
    if "on_Keys cli (calls cli) ''debug:*'' = Inr ks" for ks
    by (simp add: run [OF that] loadDebug_keys_calls)
  have registered: "\<exists>lg. loggers (snd (loadDebug e clock cli w)) (TrimPrefix (ks ! j) ''debug:'') =
                   Some \<lparr>log = lg, expiredAt = Some (time_Add (clock j) ttl)\<rparr>"
    if keys: "on_Keys cli (calls cli) ''debug:*'' = Inr ks"
      and j: "j < length ks \<and>
           on_TTL cli (calls cli @ CallKeys ''debug:*'' # map CallTTL (take j ks)) (ks ! j) = Inr ttl \<and>
           loggers w (TrimPrefix (ks ! j) ''debug:'') = None \<and>
           (\<forall>j'<j. \<forall>t.
              on_TTL cli (calls cli @ CallKeys ''debug:*'' # map CallTTL (take j' ks)) (ks ! j') = Inr t \<longrightarrow>
              TrimPrefix (ks ! j') ''debug:'' \<noteq> TrimPrefix (ks ! j) ''debug:'')"
    for ks j ttl
  proof -
    have pre: "debugRedisPrefix = ''debug:''" by (simp add: debugRedisPrefix_def)
    from j have a: "j < length ks"
      and b: "on_TTL ?cli1 (calls ?cli1 @ map CallTTL (take j ks)) (ks ! j) = Inr ttl"
      and c: "loggers w (TrimPrefix (ks ! j) debugRedisPrefix) = None"
      and d: "\<forall>j'<j. \<forall>t.
              on_TTL ?cli1 (calls ?cli1 @ map CallTTL (take j' ks)) (ks ! j') = Inr t \<longrightarrow>
              TrimPrefix (ks ! j') debugRedisPrefix \<noteq> TrimPrefix (ks ! j) debugRedisPrefix"
      unfolding hist ttl1 pre by blast+
    from loadDebug_keys_registers [OF a b c d, of e clock 0]
    show ?thesis unfolding run [OF keys] pre time_Add_def by simp
  qed
  have kept: "loggers (snd (loadDebug e clock cli w)) d = Some en"
    if "on_Keys cli (calls cli) ''debug:*'' = Inr ks" "loggers w d = Some en" for ks d en
    by (simp add: run [OF that(1)] loadDebug_keys_keeps [OF that(2)])
  have untouched: "loggers (snd (loadDebug e clock cli w)) d = None"
    if keys: "on_Keys cli (calls cli) ''debug:*'' = Inr ks"
      and d: "loggers w d = None \<and>
           (\<forall>j<length ks. \<forall>t.
              on_TTL cli (calls cli @ CallKeys ''debug:*'' # map CallTTL (take j ks)) (ks ! j) = Inr t \<longrightarrow>
              TrimPrefix (ks ! j) ''debug:'' \<noteq> d)"
    for ks d
  proof -
    have pre: "debugRedisPrefix = ''debug:''" by (simp add: debugRedisPrefix_def)
    from d have a: "loggers w d = None"
      and b: "\<forall>j<length ks. \<forall>t.
              on_TTL ?cli1 (calls ?cli1 @ map CallTTL (take j ks)) (ks ! j) = Inr t \<longrightarrow>
              TrimPrefix (ks ! j) debugRedisPrefix \<noteq> d"
      unfolding hist ttl1 pre by blast+
    from loadDebug_keys_absent [OF a b, of e clock 0]
    show ?thesis unfolding run [OF keys] .
  qed
  show ?thesis
  proof (intro conjI allI impI)
    fix err assume "on_Keys cli (calls cli) ''debug:*'' = Inl err"
    then show "loadDebug e clock cli w = (?cli1, w)" by (rule fail)
  next
    fix ks assume "on_Keys cli (calls cli) ''debug:*'' = Inr ks"
    then show "calls (fst (loadDebug e clock cli w)) =
                 calls cli @ CallKeys ''debug:*'' # map CallTTL ks" by (rule queried)
  next
    fix ks j ttl
    assume "on_Keys cli (calls cli) ''debug:*'' = Inr ks"
      and "j < length ks \<and>
           on_TTL cli (calls cli @ CallKeys ''debug:*'' # map CallTTL (take j ks)) (ks ! j) = Inr ttl \<and>
           loggers w (TrimPrefix (ks ! j) ''debug:'') = None \<and>
           (\<forall>j'<j. \<forall>t.
              on_TTL cli (calls cli @ CallKeys ''debug:*'' # map CallTTL (take j' ks)) (ks ! j') = Inr t \<longrightarrow>
              TrimPrefix (ks ! j') ''debug:'' \<noteq> TrimPrefix (ks ! j) ''debug:'')"
    then show "\<exists>lg. loggers (snd (loadDebug e clock cli w)) (TrimPrefix (ks ! j) ''debug:'') =
                   Some \<lparr>log = lg, expiredAt = Some (time_Add (clock j) ttl)\<rparr>"
      by (rule registered)
  next
    fix ks d en
    assume "on_Keys cli (calls cli) ''debug:*'' = Inr ks" and "loggers w d = Some en"
    then show "loggers (snd (loadDebug e clock cli w)) d = Some en" by (rule kept)
  next
    fix ks d
    assume "on_Keys cli (calls cli) ''debug:*'' = Inr ks"
      and "loggers w d = None \<and>
           (\<forall>j<length ks. \<forall>t.
              on_TTL cli (calls cli @ CallKeys ''debug:*'' # map CallTTL (take j ks)) (ks ! j) = Inr t \<longrightarrow>
              TrimPrefix (ks ! j) ''debug:'' \<noteq> d)"
    then show "loggers (snd (loadDebug e clock cli w)) d = None" by (rule untouched)
  qed
qed


lemma all_less_2: "(\<forall>j<2. P j) = (P 0 \<and> P (Suc 0))" for P :: "nat \<Rightarrow> bool"
  by (auto simp: numeral_2_eq_2 less_Suc_eq)

theorem loadDebug_cases_witness:
  "on_Keys client_listfail (calls client_listfail) ''debug:*'' = Inl (Error ''connection refused'')
   \<and> loadDebug env0 clock0 client_listfail world0 =
       (client_listfail\<lparr>calls := calls client_listfail @ [CallKeys ''debug:*'']\<rparr>, world0)
   \<and> on_Keys client0 (calls client0) ''debug:*'' =
       Inr [''debug:a.example'', ''debug:b.example'', ''debug:c.example'']
   \<and> calls (fst (loadDebug env0 clock0 client0 world0)) =
       [CallKeys ''debug:*'', CallTTL ''debug:a.example'', CallTTL ''debug:b.example'',
        CallTTL ''debug:c.example'']
   \<and> (\<exists>lg. loggers (snd (loadDebug env0 clock0 client0 world0)) ''a.example'' =
         Some \<lparr>log = lg, expiredAt = Some 30000001000\<rparr>)
   \<and> loggers (snd (loadDebug env0 clock0 client0 world0)) ''b.example'' = None
   \<and> (\<exists>lg. loggers (snd (loadDebug env0 clock0 client0 world0)) ''c.example'' =
         Some \<lparr>log = lg, expiredAt = Some 30000001002\<rparr>)"
proof -
  let ?ks = "[''debug:a.example'', ''debug:b.example'', ''debug:c.example'']"
  let ?w = "snd (loadDebug env0 clock0 client0 world0)"
  have lf: "on_Keys client_listfail (calls client_listfail) ''debug:*'' =
              Inl (Error ''connection refused'')"
    by (simp add: client_listfail_def client0_def)
  have keys: "on_Keys client0 (calls client0) ''debug:*'' = Inr ?ks"
    by (simp add: client0_def)
  have c0: "calls client0 = []" by (simp add: client0_def)
  have ttl: "on_TTL client0 h ''debug:a.example'' = Inr 30000000000"
    "on_TTL client0 h ''debug:c.example'' = Inr 30000000000"
    "on_TTL client0 h ''debug:b.example'' = Inl (Error ''i/o timeout'')" for h
    by (simp_all add: client0_def)
  have empty: "loggers world0 d = None" for d by (simp add: world0_def)
  note failing = loadDebug_cases [of client_listfail env0 clock0 world0, THEN conjunct1,
      rule_format, OF lf]
  note ok = loadDebug_cases [of client0 env0 clock0 world0, THEN conjunct2, rule_format, OF keys]
  note queried = ok [THEN conjunct1]
  note registered = ok [THEN conjunct2, THEN conjunct1, rule_format]
  note untouched = ok [THEN conjunct2, THEN conjunct2, THEN conjunct2, rule_format]
  have a: "\<exists>lg. loggers ?w ''a.example'' = Some \<lparr>log = lg, expiredAt = Some 30000001000\<rparr>"
    using registered [of 0 30000000000]
    by (simp add: ttl empty TrimPrefix_def clock0_def time_Add_def)
  have c: "\<exists>lg. loggers ?w ''c.example'' = Some \<lparr>log = lg, expiredAt = Some 30000001002\<rparr>"
    using registered [of 2 30000000000]
    by (simp add: ttl empty TrimPrefix_def clock0_def time_Add_def all_less_2)
  have b: "loggers ?w ''b.example'' = None"
    using untouched [of "''b.example''"]
    by (simp add: ttl empty TrimPrefix_def All_less_Suc)
  from failing queried a b c lf keys show ?thesis
    by (simp add: c0)
qed

section \<open>The logger made for a domain\<close>

lemma addDebugDomain_new_hooks:
  "loggers w d = None \<Longrightarrow>
   hookTables (heap (addDebugDomain e now d ttl w)) (nextRef (heap w) + 1) =
     (if Syslog (opts w) then
        (case syslogHook e of
           Inr hk \<Rightarrow> fold (\<lambda>lv m. m(lv := m lv @ [hk])) (Levels hk) (\<lambda>_. [])
         | Inl _ \<Rightarrow> (\<lambda>_. []))
      else (\<lambda>_. []))"
  by (simp add: addDebugDomain_def logrus_New_def Let_def update_logger_def LevelHooks_Add_def
      split: sum.splits)

lemma LevelHooks_Add_other:
  "r \<noteq> r' \<Longrightarrow> hookTables (LevelHooks_Add r hk hp) r' = hookTables hp r'"
  by (simp add: LevelHooks_Add_def)

text \<open>
  C3, as the claim states it, fails. An entry's logger is made by \<open>logrus.New()\<close>, not
  from the standard logger (the package's \<open>Clone\<close> is not called here): with a
  standard logger that writes to a file, has formatter \<open>0\<close> and carries a hook, the new
  logger writes to standard error, has the new formatter \<open>3\<close> and an empty hook table.
\<close>

theorem domain_logger_not_derived_from_base:
  "loggerObjs (heap world0) (std world0) =
     Some \<lparr>Out = Writer 1, Hooks = 1, Formatter = 0, Level = InfoLevel\<rparr>
   \<and> hookTables (heap world0) 1 InfoLevel = [hook0]
   \<and> loggers (addDebugDomain env0 100 ''a.example'' 50 world0) ''a.example'' =
       Some \<lparr>log = 5, expiredAt = Some 150\<rparr>
   \<and> loggerObjs (heap (addDebugDomain env0 100 ''a.example'' 50 world0)) 5 =
       Some \<lparr>Out = Stderr, Hooks = 4, Formatter = 3, Level = DebugLevel\<rparr>
   \<and> hookTables (heap (addDebugDomain env0 100 ''a.example'' 50 world0)) 4 InfoLevel = []"
proof -
  have none: "loggers world0 ''a.example'' = None" by (simp add: world0_def)
  have nr: "nextRef (heap world0) = 3" by (simp add: world0_def heap0_def)
  have sys: "\<not> Syslog (opts world0)" by (simp add: world0_def)
  from addDebugDomain_loggers [OF none, of env0 100 50]
       addDebugDomain_new_logger [OF none, of env0 100 50]
       addDebugDomain_new_hooks [OF none, of env0 100 50] nr sys
  show ?thesis
    by (simp add: world0_def heap0_def base_logger0_def)
qed

text \<open>
  C3, amended. For a domain without entry, in a world whose standard logger \<open>B\<close> and
  its formatter and hook table are allocated: the logger of the new entry is newly
  constructed. Its level is debug whatever the level of \<open>B\<close>. Its formatter and its hook
  table are new objects, different from those of \<open>B\<close>. When syslog is configured and the
  syslog hook is created, the logger discards its output and its hook table holds that
  hook only; otherwise it writes to standard error and its hook table is empty. The
  standard logger and its hook table are left as they were, and a hook added afterwards
  to either hook table does not change the other.
\<close>

theorem domain_logger_fresh:
  assumes absent: "loggers w D = None"
    and base: "loggerObjs (heap w) (std w) = Some B"
    and alloc: "std w < nextRef (heap w)" "Hooks B < nextRef (heap w)" "Formatter B < nextRef (heap w)"
  shows "\<exists>en L. loggers (addDebugDomain e now D ttl w) D = Some en
       \<and> loggerObjs (heap (addDebugDomain e now D ttl w)) (log en) = Some L
       \<and> Level L = DebugLevel
       \<and> log en \<noteq> std w \<and> Formatter L \<noteq> Formatter B \<and> Hooks L \<noteq> Hooks B
       \<and> nextRef (heap w) \<le> Formatter L \<and> nextRef (heap w) \<le> Hooks L
       \<and> (\<forall>hk. Syslog (opts w) \<and> syslogHook e = Inr hk \<longrightarrow>
             Out L = Discard \<and>
             hookTables (heap (addDebugDomain e now D ttl w)) (Hooks L) =
               fold (\<lambda>lv m. m(lv := m lv @ [hk])) (Levels hk) (\<lambda>_. []))
       \<and> (\<not> Syslog (opts w) \<or> isl (syslogHook e) \<longrightarrow>
             Out L = Stderr \<and>
             hookTables (heap (addDebugDomain e now D ttl w)) (Hooks L) = (\<lambda>_. []))
       \<and> loggerObjs (heap (addDebugDomain e now D ttl w)) (std w) = Some B
       \<and> hookTables (heap (addDebugDomain e now D ttl w)) (Hooks B) = hookTables (heap w) (Hooks B)
       \<and> (\<forall>hk. hookTables (LevelHooks_Add (Hooks B) hk (heap (addDebugDomain e now D ttl w))) (Hooks L) =
                 hookTables (heap (addDebugDomain e now D ttl w)) (Hooks L)
              \<and> hookTables (LevelHooks_Add (Hooks L) hk (heap (addDebugDomain e now D ttl w))) (Hooks B) =
                 hookTables (heap (addDebugDomain e now D ttl w)) (Hooks B))"
proof -
  let ?w = "addDebugDomain e now D ttl w"
  let ?en = "\<lparr>log = nextRef (heap w) + 2, expiredAt = Some (now + ttl)\<rparr>"
  let ?L = "\<lparr>Out = (if Syslog (opts w) \<and> isl (syslogHook e) = False then Discard else Stderr),
            Hooks = nextRef (heap w) + 1, Formatter = nextRef (heap w), Level = DebugLevel\<rparr>"
  have en: "loggers ?w D = Some ?en"
    using absent by (simp add: addDebugDomain_loggers)
  have L: "loggerObjs (heap ?w) (log ?en) = Some ?L"
    using addDebugDomain_new_logger [OF absent, of e now ttl] by simp
  have tbl: "hookTables (heap ?w) (Hooks ?L) =
     (if Syslog (opts w) then
        (case syslogHook e of
           Inr hk \<Rightarrow> fold (\<lambda>lv m. m(lv := m lv @ [hk])) (Levels hk) (\<lambda>_. [])
         | Inl _ \<Rightarrow> (\<lambda>_. []))
      else (\<lambda>_. []))"
    using addDebugDomain_new_hooks [OF absent, of e now ttl] by simp
  have baseL: "loggerObjs (heap ?w) (std w) = Some B"
    using alloc(1) base by (simp add: addDebugDomain_old_logger)
  have baseH: "hookTables (heap ?w) (Hooks B) = hookTables (heap w) (Hooks B)"
    using alloc(2) by (simp add: addDebugDomain_old_hooks)
  have neq: "Hooks ?L \<noteq> Hooks B" "Formatter ?L \<noteq> Formatter B" "log ?en \<noteq> std w"
    using alloc by simp_all
  have indep: "hookTables (LevelHooks_Add (Hooks B) hk (heap ?w)) (Hooks ?L) = hookTables (heap ?w) (Hooks ?L)
             \<and> hookTables (LevelHooks_Add (Hooks ?L) hk (heap ?w)) (Hooks B) = hookTables (heap ?w) (Hooks B)"
    for hk
    using neq(1) by (simp add: LevelHooks_Add_other)
  have sysl: "Out ?L = Discard \<and>
             hookTables (heap ?w) (Hooks ?L) = fold (\<lambda>lv m. m(lv := m lv @ [hk])) (Levels hk) (\<lambda>_. [])"
    if "Syslog (opts w) \<and> syslogHook e = Inr hk" for hk
    using that tbl by simp
  have plain: "Out ?L = Stderr \<and> hookTables (heap ?w) (Hooks ?L) = (\<lambda>_. [])"
    if "\<not> Syslog (opts w) \<or> isl (syslogHook e)"
    using that tbl by (auto split: sum.splits)
  show ?thesis
    apply (rule exI [of _ ?en])
    apply (rule exI [of _ ?L])
    using en L neq baseL baseH indep sysl plain
    apply (intro conjI)
    apply simp_all
    done
qed


theorem domain_logger_fresh_witness:
  "loggers world0 ''a.example'' = None
   \<and> loggerObjs (heap world0) (std world0) = Some base_logger0
   \<and> std world0 < nextRef (heap world0)
   \<and> Hooks base_logger0 < nextRef (heap world0)
   \<and> Formatter base_logger0 < nextRef (heap world0)
   \<and> \<not> Syslog (opts world0)
   \<and> (\<exists>en L. loggers (addDebugDomain env0 100 ''a.example'' 50 world0) ''a.example'' = Some en
         \<and> loggerObjs (heap (addDebugDomain env0 100 ''a.example'' 50 world0)) (log en) = Some L
         \<and> Level L = DebugLevel \<and> Out L = Stderr
         \<and> Formatter L \<noteq> Formatter base_logger0 \<and> Hooks L \<noteq> Hooks base_logger0
         \<and> hookTables (heap (addDebugDomain env0 100 ''a.example'' 50 world0)) (Hooks L) InfoLevel = []
         \<and> hookTables (heap (addDebugDomain env0 100 ''a.example'' 50 world0)) (Hooks base_logger0)
              InfoLevel = [hook0])
   \<and> Syslog (opts world_syslog) \<and> syslogHook env0 = Inr syslog_hook0
   \<and> (\<exists>en L. loggers (addDebugDomain env0 100 ''a.example'' 50 world_syslog) ''a.example'' = Some en
         \<and> loggerObjs (heap (addDebugDomain env0 100 ''a.example'' 50 world_syslog)) (log en) = Some L
         \<and> Level L = DebugLevel \<and> Out L = Discard
         \<and> hookTables (heap (addDebugDomain env0 100 ''a.example'' 50 world_syslog)) (Hooks L) InfoLevel =
             [syslog_hook0])"
proof -
  have h0: "loggers world0 ''a.example'' = None"
    "loggerObjs (heap world0) (std world0) = Some base_logger0"
    "std world0 < nextRef (heap world0)"
    "Hooks base_logger0 < nextRef (heap world0)"
    "Formatter base_logger0 < nextRef (heap world0)"
    by (simp_all add: world0_def heap0_def base_logger0_def)
  have hs: "loggers world_syslog ''a.example'' = None"
    "loggerObjs (heap world_syslog) (std world_syslog) = Some base_logger0"
    "std world_syslog < nextRef (heap world_syslog)"
    "Hooks base_logger0 < nextRef (heap world_syslog)"
    "Formatter base_logger0 < nextRef (heap world_syslog)"
    by (simp_all add: world_syslog_def world0_def heap0_def base_logger0_def)
  have plain: "\<not> Syslog (opts world0)" by (simp add: world0_def)
  have sys: "Syslog (opts world_syslog)" "syslogHook env0 = Inr syslog_hook0"
    by (simp_all add: world_syslog_def env0_def)
  have tbl0: "hookTables (heap world0) (Hooks base_logger0) InfoLevel = [hook0]"
    by (simp add: world0_def heap0_def base_logger0_def)
  have fold0: "fold (\<lambda>lv m. m(lv := m lv @ [syslog_hook0])) (Levels syslog_hook0) (\<lambda>_. []) InfoLevel =
      [syslog_hook0]"
    by (simp add: syslog_hook0_def)
  from domain_logger_fresh [OF h0, of env0 100 50] plain tbl0
  have first: "\<exists>en L. loggers (addDebugDomain env0 100 ''a.example'' 50 world0) ''a.example'' = Some en
         \<and> loggerObjs (heap (addDebugDomain env0 100 ''a.example'' 50 world0)) (log en) = Some L
         \<and> Level L = DebugLevel \<and> Out L = Stderr
         \<and> Formatter L \<noteq> Formatter base_logger0 \<and> Hooks L \<noteq> Hooks base_logger0
         \<and> hookTables (heap (addDebugDomain env0 100 ''a.example'' 50 world0)) (Hooks L) InfoLevel = []
         \<and> hookTables (heap (addDebugDomain env0 100 ''a.example'' 50 world0)) (Hooks base_logger0)
              InfoLevel = [hook0]"
    by fastforce
  from domain_logger_fresh [OF hs, of env0 100 50] sys fold0
  have second: "\<exists>en L. loggers (addDebugDomain env0 100 ''a.example'' 50 world_syslog) ''a.example'' = Some en
         \<and> loggerObjs (heap (addDebugDomain env0 100 ''a.example'' 50 world_syslog)) (log en) = Some L
         \<and> Level L = DebugLevel \<and> Out L = Discard
         \<and> hookTables (heap (addDebugDomain env0 100 ''a.example'' 50 world_syslog)) (Hooks L) InfoLevel =
             [syslog_hook0]"
    by fastforce
  from h0 plain sys first second show ?thesis by blast
qed

end
